theory Spec2Isabelle
  imports Complex_Main "HOL-Library.AList" "HOL-Library.Sublist"
begin

section \<open>Escrow batching agent: data model\<close>

text \<open>
  The embedding follows \<^verbatim>\<open>Archive/src/agents/escrow_batching_agent.py\<close>.
  Kybra's \<^verbatim>\<open>nat64\<close> and \<^verbatim>\<open>text\<close> are Python's \<^verbatim>\<open>int\<close> and \<^verbatim>\<open>str\<close>, so amounts
  are \<^typ>\<open>int\<close> (subtraction can go below zero, which is why the source clamps with
  \<^verbatim>\<open>max\<close>) and every status is a \<^typ>\<open>string\<close>, compared with the literals the source
  uses. Record fields carry a prefix because several records of the source share field
  names (\<^verbatim>\<open>merchant_id\<close>, \<^verbatim>\<open>status\<close>, \<^verbatim>\<open>created_at\<close>).
\<close>

datatype ApiTier = free | business | enterprise

record MerchantConfig =
  mc_merchant_id :: string
  mc_merchant_address :: string
  mc_api_key :: string
  mc_tier :: ApiTier
  mc_batching_enabled :: bool
  mc_batch_frequency :: string
  mc_batch_day :: "int option"
  mc_batch_time :: string
  mc_min_batch_amount :: int
  mc_max_batch_amount :: int
  mc_auto_settle :: bool
  mc_created_at :: string
  mc_updated_at :: string

record BatchPayment =
  bp_payment_id :: string
  bp_merchant_id :: string
  bp_user_wallet :: string
  bp_amount :: int
  bp_currency :: string
  bp_timestamp :: string
  bp_status :: string
  bp_batch_id :: "string option"
  bp_transaction_hash :: "string option"
  bp_error_message :: "string option"

record Batch =
  b_batch_id :: string
  b_merchant_id :: string
  b_total_amount :: int
  b_payment_count :: int
  b_created_at :: string
  b_scheduled_at :: string
  b_settled_at :: "string option"
  b_status :: string
  b_transaction_hash :: "string option"
  b_gas_used :: "int option"
  b_gas_cost :: "int option"
  b_error_message :: "string option"

record EscrowPDA =
  pda_address :: string
  pda_merchant_id :: string
  pda_total_balance :: int
  pda_pending_batches :: int
  pda_created_at :: string
  pda_last_settlement :: "string option"
  pda_is_active :: bool

record BatchingMetrics =
  total_batches_processed :: int
  total_volume_batched :: int
  gas_cost_savings :: int
  average_batch_size :: int
  merchants_active :: int
  pending_amount :: int
  settlement_success_rate :: int

record SettleConfig =
  sc_max_gas_price :: int
  sc_priority_fee :: int
  sc_retry_attempts :: int
  sc_settlement_timeout :: int
  sc_emergency_pause :: bool

subsection \<open>Stable storage\<close>

text \<open>
  A \<^verbatim>\<open>StableBTreeMap\<close> is an association list with at most one entry per key:
  \<^verbatim>\<open>get\<close> is \<^const>\<open>map_of\<close>, \<^verbatim>\<open>insert\<close> replaces the entry of an existing key in place and
  appends a new key, \<^verbatim>\<open>keys\<close> and \<^verbatim>\<open>values\<close> list the entries. The B-tree lists its keys
  in key order and the list in insertion order; the source only sums, counts and
  updates per key over these listings, which does not depend on the order.
\<close>

type_synonym 'v storage = "(string \<times> 'v) list"

definition st_get :: "'v storage \<Rightarrow> string \<Rightarrow> 'v option" where
  "st_get st k = map_of st k"

definition st_insert :: "string \<Rightarrow> 'v \<Rightarrow> 'v storage \<Rightarrow> 'v storage" where
  "st_insert k v st = AList.update k v st"

definition st_keys :: "'v storage \<Rightarrow> string list" where
  "st_keys st = map fst st"

definition st_values :: "'v storage \<Rightarrow> 'v list" where
  "st_values st = map snd st"

record state =
  merchant_configs_storage :: "MerchantConfig storage"
  batch_payments_storage :: "BatchPayment storage"
  batches_storage :: "Batch storage"
  escrow_pdas_storage :: "EscrowPDA storage"
  settle_config_storage :: "SettleConfig storage"

subsection \<open>What a call reads from outside\<close>

text \<open>
  \<^verbatim>\<open>ic.time()\<close> is constant during one call; \<^verbatim>\<open>hash\<close> and \<^verbatim>\<open>random\<close> are not determined
  by the program. A call receives them in an environment: the time, the value of
  \<^verbatim>\<open>hash(str(payment_data))\<close>, Python's \<^verbatim>\<open>hash\<close> on strings, the outcome of
  \<^verbatim>\<open>random.random() > 0.02\<close> and the value of \<^verbatim>\<open>random.randint(150000, 300000)\<close>.
\<close>

record env =
  time :: nat
  payload_hash :: int
  str_hash :: "string \<Rightarrow> int"
  rand_success :: bool
  rand_gas :: int

text \<open>\<^verbatim>\<open>str\<close> of a Python integer: decimal digits, with a minus sign below zero.\<close>

definition digit_char :: "nat \<Rightarrow> char" where
  "digit_char d = ''0123456789'' ! d"

fun str_nat :: "nat \<Rightarrow> string" where
  "str_nat n = (if n < 10 then [digit_char n] else str_nat (n div 10) @ [digit_char (n mod 10)])"

declare str_nat.simps [simp del]

definition str_int :: "int \<Rightarrow> string" where
  "str_int i = (if i < 0 then CHR ''-'' # str_nat (nat (- i)) else str_nat (nat i))"

text \<open>
  The payload of \<^verbatim>\<open>process_payment\<close> is the dictionary \<^verbatim>\<open>payment_data\<close>; the function reads
  four keys with \<^verbatim>\<open>payment_data[...]\<close> and \<^verbatim>\<open>merchant_address\<close> with a default. The model's
  payload type has exactly these entries, the optional one as an option.
\<close>

record payment_data =
  pd_api_key :: string
  pd_merchant_id :: string
  pd_user_wallet :: string
  pd_amount :: int
  pd_merchant_address :: "string option"

text \<open>
  The payload of \<^verbatim>\<open>update_merchant_config\<close>: every key is read with
  \<^verbatim>\<open>config_data.get(key, existing value)\<close>, so every entry is optional.
\<close>

record config_data =
  cd_batching_enabled :: "bool option"
  cd_batch_frequency :: "string option"
  cd_batch_time :: "string option"
  cd_min_batch_amount :: "int option"
  cd_max_batch_amount :: "int option"
  cd_auto_settle :: "bool option"

section \<open>Operations\<close>

definition DEFAULT_SETTLE_CONFIG :: SettleConfig where
  "DEFAULT_SETTLE_CONFIG =
     \<lparr>sc_max_gas_price = 100000, sc_priority_fee = 1000, sc_retry_attempts = 3,
      sc_settlement_timeout = 300, sc_emergency_pause = False\<rparr>"

definition detect_api_tier :: "string \<Rightarrow> ApiTier" where
  "detect_api_tier api_key =
     (if prefix ''ouro_enterprise_'' api_key then enterprise
      else if prefix ''ouro_business_'' api_key then business
      else free)"

definition should_use_escrow :: "string \<Rightarrow> bool" where
  "should_use_escrow api_key =
     (let tier = detect_api_tier api_key
      in if tier = free then False
         else if tier \<in> set [business, enterprise] then True
         else False)"

definition create_or_get_escrow_pda :: "string \<Rightarrow> env \<Rightarrow> state \<Rightarrow> EscrowPDA \<times> state" where
  "create_or_get_escrow_pda merchant_id e s =
     (case st_get (escrow_pdas_storage s) merchant_id of
        Some existing_pda \<Rightarrow> (existing_pda, s)
      | None \<Rightarrow>
          (let new_pda =
                 \<lparr>pda_address = ''escrow_pda_'' @ merchant_id @ ''_'' @ str_nat (time e),
                  pda_merchant_id = merchant_id,
                  pda_total_balance = 0,
                  pda_pending_batches = 0,
                  pda_created_at = str_nat (time e),
                  pda_last_settlement = None,
                  pda_is_active = True\<rparr>
           in (new_pda,
               s\<lparr>escrow_pdas_storage := st_insert merchant_id new_pda (escrow_pdas_storage s)\<rparr>)))"

text \<open>
  The loop that both \<^verbatim>\<open>should_create_batch\<close> and \<^verbatim>\<open>create_batch_for_merchant\<close> run
  over \<^verbatim>\<open>batch_payments_storage.keys()\<close>: look every key up and keep the payments of
  the merchant whose status is \<^verbatim>\<open>"pending"\<close>.
\<close>

definition pending_payments_of :: "string \<Rightarrow> BatchPayment storage \<Rightarrow> BatchPayment list" where
  "pending_payments_of merchant_id st =
     filter (\<lambda>payment. bp_merchant_id payment = merchant_id \<and> bp_status payment = ''pending'')
       (List.map_filter (st_get st) (st_keys st))"

definition should_create_batch :: "string \<Rightarrow> state \<Rightarrow> bool" where
  "should_create_batch merchant_id s =
     (case st_get (merchant_configs_storage s) merchant_id of
        None \<Rightarrow> False
      | Some config \<Rightarrow>
          if \<not> mc_batching_enabled config then False
          else
            (let pending_payments = pending_payments_of merchant_id (batch_payments_storage s)
             in if length pending_payments = 0 then False
                else
                  (let total_amount = sum_list (map bp_amount pending_payments)
                   in if total_amount < mc_min_batch_amount config then False
                      else if total_amount \<ge> mc_max_batch_amount config then True
                      else length pending_payments \<ge> 3)))"

text \<open>
  The payment loop of a successful settlement runs over a snapshot of the keys and
  reads each payment from the store as it is at that moment.
\<close>

definition settle_payments ::
  "string \<Rightarrow> string option \<Rightarrow> BatchPayment storage \<Rightarrow> BatchPayment storage" where
  "settle_payments batch_id tx st =
     foldl (\<lambda>acc payment_id.
              case st_get acc payment_id of
                None \<Rightarrow> acc
              | Some payment \<Rightarrow>
                  if bp_batch_id payment \<noteq> None \<and> the (bp_batch_id payment) = batch_id
                  then st_insert payment_id
                         \<lparr>bp_payment_id = bp_payment_id payment,
                          bp_merchant_id = bp_merchant_id payment,
                          bp_user_wallet = bp_user_wallet payment,
                          bp_amount = bp_amount payment,
                          bp_currency = bp_currency payment,
                          bp_timestamp = bp_timestamp payment,
                          bp_status = ''settled'',
                          bp_batch_id = bp_batch_id payment,
                          bp_transaction_hash = tx,
                          bp_error_message = bp_error_message payment\<rparr> acc
                  else acc)
           st (st_keys st)"

definition settle_batch :: "string \<Rightarrow> env \<Rightarrow> state \<Rightarrow> bool \<times> state" where
  "settle_batch batch_id e s =
     (case st_get (batches_storage s) batch_id of
        None \<Rightarrow> (False, s)
      | Some batch \<Rightarrow>
          if b_status batch \<noteq> ''pending'' then (False, s)
          else if (case st_get (settle_config_storage s) ''default'' of
                     None \<Rightarrow> False
                   | Some config \<Rightarrow> sc_emergency_pause config)
          then (False, s)
          else
            (let updated_batch =
                   \<lparr>b_batch_id = b_batch_id batch,
                    b_merchant_id = b_merchant_id batch,
                    b_total_amount = b_total_amount batch,
                    b_payment_count = b_payment_count batch,
                    b_created_at = b_created_at batch,
                    b_scheduled_at = b_scheduled_at batch,
                    b_settled_at = Some (str_nat (time e)),
                    b_status = ''processing'',
                    b_transaction_hash = b_transaction_hash batch,
                    b_gas_used = None,
                    b_gas_cost = None,
                    b_error_message = b_error_message batch\<rparr>;
                 s1 = s\<lparr>batches_storage := st_insert batch_id updated_batch (batches_storage s)\<rparr>
             in if rand_success e then
                  (let gas_used = rand_gas e;
                       gas_cost = gas_used * 25;
                       final_batch =
                         \<lparr>b_batch_id = b_batch_id batch,
                          b_merchant_id = b_merchant_id batch,
                          b_total_amount = b_total_amount batch,
                          b_payment_count = b_payment_count batch,
                          b_created_at = b_created_at batch,
                          b_scheduled_at = b_scheduled_at batch,
                          b_settled_at = b_settled_at batch,
                          b_status = ''settled'',
                          b_transaction_hash =
                            Some (''settle_tx_'' @ str_int (str_hash e (batch_id @ str_nat (time e)))),
                          b_gas_used = Some gas_used,
                          b_gas_cost = Some gas_cost,
                          b_error_message = None\<rparr>;
                       s2 = s1\<lparr>batches_storage := st_insert batch_id final_batch (batches_storage s1)\<rparr>;
                       s3 = s2\<lparr>batch_payments_storage :=
                                 settle_payments batch_id (b_transaction_hash final_batch)
                                   (batch_payments_storage s2)\<rparr>;
                       merchant_id = b_merchant_id batch;
                       s4 = (case st_get (escrow_pdas_storage s3) merchant_id of
                               None \<Rightarrow> s3
                             | Some pda \<Rightarrow>
                                 s3\<lparr>escrow_pdas_storage :=
                                      st_insert merchant_id
                                        \<lparr>pda_address = pda_address pda,
                                         pda_merchant_id = pda_merchant_id pda,
                                         pda_total_balance =
                                           max 0 (pda_total_balance pda - b_total_amount batch),
                                         pda_pending_batches = max 0 (pda_pending_batches pda - 1),
                                         pda_created_at = pda_created_at pda,
                                         pda_last_settlement = b_settled_at batch,
                                         pda_is_active = pda_is_active pda\<rparr>
                                        (escrow_pdas_storage s3)\<rparr>)
                   in (True, s4))
                else
                  (let failed_batch =
                         \<lparr>b_batch_id = b_batch_id batch,
                          b_merchant_id = b_merchant_id batch,
                          b_total_amount = b_total_amount batch,
                          b_payment_count = b_payment_count batch,
                          b_created_at = b_created_at batch,
                          b_scheduled_at = b_scheduled_at batch,
                          b_settled_at = b_settled_at batch,
                          b_status = ''failed'',
                          b_transaction_hash = None,
                          b_gas_used = None,
                          b_gas_cost = None,
                          b_error_message = Some ''Settlement transaction failed''\<rparr>
                   in (False,
                       s1\<lparr>batches_storage := st_insert batch_id failed_batch (batches_storage s1)\<rparr>))))"

text \<open>
  The loop of \<^verbatim>\<open>create_batch_for_merchant\<close> that rewrites every collected payment as
  \<^verbatim>\<open>"batched"\<close>, stored under the payment's own \<^verbatim>\<open>payment_id\<close>.
\<close>

definition mark_batched ::
  "string \<Rightarrow> BatchPayment list \<Rightarrow> BatchPayment storage \<Rightarrow> BatchPayment storage" where
  "mark_batched batch_id pending_payments st =
     foldl (\<lambda>acc payment.
              st_insert (bp_payment_id payment)
                \<lparr>bp_payment_id = bp_payment_id payment,
                 bp_merchant_id = bp_merchant_id payment,
                 bp_user_wallet = bp_user_wallet payment,
                 bp_amount = bp_amount payment,
                 bp_currency = bp_currency payment,
                 bp_timestamp = bp_timestamp payment,
                 bp_status = ''batched'',
                 bp_batch_id = Some batch_id,
                 bp_transaction_hash = bp_transaction_hash payment,
                 bp_error_message = bp_error_message payment\<rparr> acc)
           st pending_payments"

text \<open>
  The part of \<^verbatim>\<open>create_batch_for_merchant\<close> between the two early returns and the
  auto-settle step: the batch id, the batch record, the payment updates and the update
  of the merchant's escrow PDA. It yields the state as it is just before
  \<^verbatim>\<open>if config.auto_settle\<close>.
\<close>

definition new_batch_id :: "string \<Rightarrow> env \<Rightarrow> string" where
  "new_batch_id merchant_id e = ''batch_'' @ merchant_id @ ''_'' @ str_nat (time e)"

definition create_batch_records ::
  "string \<Rightarrow> BatchPayment list \<Rightarrow> env \<Rightarrow> state \<Rightarrow> state" where
  "create_batch_records merchant_id pending_payments e s =
     (let total_amount = sum_list (map bp_amount pending_payments);
          batch_id = new_batch_id merchant_id e;
          batch =
            \<lparr>b_batch_id = batch_id,
             b_merchant_id = merchant_id,
             b_total_amount = total_amount,
             b_payment_count = int (length pending_payments),
             b_created_at = str_nat (time e),
             b_scheduled_at = str_nat (time e),
             b_settled_at = None,
             b_status = ''pending'',
             b_transaction_hash = None,
             b_gas_used = None,
             b_gas_cost = None,
             b_error_message = None\<rparr>;
          s1 = s\<lparr>batches_storage := st_insert batch_id batch (batches_storage s)\<rparr>;
          s2 = s1\<lparr>batch_payments_storage :=
                    mark_batched batch_id pending_payments (batch_payments_storage s1)\<rparr>
      in case st_get (escrow_pdas_storage s2) merchant_id of
           None \<Rightarrow> s2
         | Some pda \<Rightarrow>
             s2\<lparr>escrow_pdas_storage :=
                  st_insert merchant_id
                    \<lparr>pda_address = pda_address pda,
                     pda_merchant_id = pda_merchant_id pda,
                     pda_total_balance = pda_total_balance pda + total_amount,
                     pda_pending_batches = pda_pending_batches pda + 1,
                     pda_created_at = pda_created_at pda,
                     pda_last_settlement = pda_last_settlement pda,
                     pda_is_active = pda_is_active pda\<rparr>
                    (escrow_pdas_storage s2)\<rparr>)"

definition create_batch_for_merchant :: "string \<Rightarrow> env \<Rightarrow> state \<Rightarrow> string \<times> state" where
  "create_batch_for_merchant merchant_id e s =
     (case st_get (merchant_configs_storage s) merchant_id of
        None \<Rightarrow> (''merchant_not_found'', s)
      | Some config \<Rightarrow>
          (let pending_payments = pending_payments_of merchant_id (batch_payments_storage s)
           in if length pending_payments = 0 then (''no_pending_payments'', s)
              else
                (let batch_id = new_batch_id merchant_id e;
                     s3 = create_batch_records merchant_id pending_payments e s;
                     s4 = (if mc_auto_settle config then snd (settle_batch batch_id e s3) else s3)
                 in (batch_id, s4))))"

definition new_payment_id :: "env \<Rightarrow> string" where
  "new_payment_id e = ''payment_'' @ str_nat (time e) @ ''_'' @ str_int (payload_hash e mod 10000)"

definition process_payment :: "payment_data \<Rightarrow> env \<Rightarrow> state \<Rightarrow> string \<times> state" where
  "process_payment pd e s =
     (let api_key = pd_api_key pd;
          merchant_id = pd_merchant_id pd;
          user_wallet = pd_user_wallet pd;
          amount = pd_amount pd;
          tier = detect_api_tier api_key;
          s1 = (case st_get (merchant_configs_storage s) merchant_id of
                  Some merchant_config \<Rightarrow> s
                | None \<Rightarrow>
                    s\<lparr>merchant_configs_storage :=
                        st_insert merchant_id
                          \<lparr>mc_merchant_id = merchant_id,
                           mc_merchant_address =
                             (case pd_merchant_address pd of None \<Rightarrow> [] | Some a \<Rightarrow> a),
                           mc_api_key = api_key,
                           mc_tier = tier,
                           mc_batching_enabled = should_use_escrow api_key,
                           mc_batch_frequency = ''daily'',
                           mc_batch_day = None,
                           mc_batch_time = ''14:00'',
                           mc_min_batch_amount = 100000000,
                           mc_max_batch_amount = 10000000000,
                           mc_auto_settle = True,
                           mc_created_at = str_nat (time e),
                           mc_updated_at = str_nat (time e)\<rparr>
                          (merchant_configs_storage s)\<rparr>);
          payment_id = new_payment_id e
      in if should_use_escrow api_key then
           (let s2 = snd (create_or_get_escrow_pda merchant_id e s1);
                payment =
                  \<lparr>bp_payment_id = payment_id,
                   bp_merchant_id = merchant_id,
                   bp_user_wallet = user_wallet,
                   bp_amount = amount,
                   bp_currency = ''USDC'',
                   bp_timestamp = str_nat (time e),
                   bp_status = ''pending'',
                   bp_batch_id = None,
                   bp_transaction_hash = None,
                   bp_error_message = None\<rparr>;
                s3 = s2\<lparr>batch_payments_storage :=
                          st_insert payment_id payment (batch_payments_storage s2)\<rparr>;
                s4 = (if should_create_batch merchant_id s3
                      then snd (create_batch_for_merchant merchant_id e s3) else s3)
            in (''escrow_batched_'' @ payment_id, s4))
         else
           (let payment =
                  \<lparr>bp_payment_id = payment_id,
                   bp_merchant_id = merchant_id,
                   bp_user_wallet = user_wallet,
                   bp_amount = amount,
                   bp_currency = ''USDC'',
                   bp_timestamp = str_nat (time e),
                   bp_status = ''settled'',
                   bp_batch_id = None,
                   bp_transaction_hash = Some (''direct_tx_'' @ str_int (str_hash e payment_id)),
                   bp_error_message = None\<rparr>
            in (''direct_settled_'' @ payment_id,
                s1\<lparr>batch_payments_storage :=
                     st_insert payment_id payment (batch_payments_storage s1)\<rparr>)))"

definition update_merchant_config ::
  "string \<Rightarrow> config_data \<Rightarrow> env \<Rightarrow> state \<Rightarrow> bool \<times> state" where
  "update_merchant_config merchant_id cd e s =
     (case st_get (merchant_configs_storage s) merchant_id of
        None \<Rightarrow> (False, s)
      | Some existing_config \<Rightarrow>
          (let updated_config =
                 \<lparr>mc_merchant_id = merchant_id,
                  mc_merchant_address = mc_merchant_address existing_config,
                  mc_api_key = mc_api_key existing_config,
                  mc_tier = mc_tier existing_config,
                  mc_batching_enabled =
                    (case cd_batching_enabled cd of
                       None \<Rightarrow> mc_batching_enabled existing_config | Some v \<Rightarrow> v),
                  mc_batch_frequency =
                    (case cd_batch_frequency cd of
                       None \<Rightarrow> mc_batch_frequency existing_config | Some v \<Rightarrow> v),
                  mc_batch_day = mc_batch_day existing_config,
                  mc_batch_time =
                    (case cd_batch_time cd of
                       None \<Rightarrow> mc_batch_time existing_config | Some v \<Rightarrow> v),
                  mc_min_batch_amount =
                    (case cd_min_batch_amount cd of
                       None \<Rightarrow> mc_min_batch_amount existing_config | Some v \<Rightarrow> v),
                  mc_max_batch_amount =
                    (case cd_max_batch_amount cd of
                       None \<Rightarrow> mc_max_batch_amount existing_config | Some v \<Rightarrow> v),
                  mc_auto_settle =
                    (case cd_auto_settle cd of
                       None \<Rightarrow> mc_auto_settle existing_config | Some v \<Rightarrow> v),
                  mc_created_at = mc_created_at existing_config,
                  mc_updated_at = str_nat (time e)\<rparr>
           in (True,
               s\<lparr>merchant_configs_storage :=
                    st_insert merchant_id updated_config (merchant_configs_storage s)\<rparr>)))"

definition get_escrow_balance :: "string \<Rightarrow> state \<Rightarrow> int" where
  "get_escrow_balance merchant_id s =
     (case st_get (escrow_pdas_storage s) merchant_id of
        Some pda \<Rightarrow> pda_total_balance pda
      | None \<Rightarrow> 0)"

definition canister_init :: state where
  "canister_init =
     \<lparr>merchant_configs_storage = [],
      batch_payments_storage = [],
      batches_storage = [],
      escrow_pdas_storage = [],
      settle_config_storage = st_insert ''default'' DEFAULT_SETTLE_CONFIG []\<rparr>"

subsection \<open>Metrics\<close>

text \<open>
  \<^verbatim>\<open>success_rate = int((settled_batches / max(1, total_batches)) * 10000)\<close> is computed in
  binary64 floating point: \<^verbatim>\<open>/\<close> on two Python integers is the correctly rounded
  quotient, \<^verbatim>\<open>*\<close> rounds the exact product, and \<^verbatim>\<open>int\<close> truncates toward zero. A
  floating-point value is kept here as an exact fraction (numerator, denominator), and
  rounding is to the nearest value with a 53-bit significand, ties to even, with the
  exponent not below that of the subnormal numbers. The counts are far below the
  overflow threshold, which is not modelled.
\<close>

fun bit_length :: "nat \<Rightarrow> nat" where
  "bit_length n = (if n = 0 then 0 else Suc (bit_length (n div 2)))"

declare bit_length.simps [simp del]

definition floor_log2 :: "int \<Rightarrow> int \<Rightarrow> int" where
  "floor_log2 n d =
     (if d \<le> n then int (bit_length (nat (n div d))) - 1
      else - int (bit_length (nat ((d + n - 1) div n - 1))))"

definition round_half_even :: "int \<Rightarrow> int \<Rightarrow> int" where
  "round_half_even n d =
     (let q = n div d; r = n mod d
      in if 2 * r < d then q else if d < 2 * r then q + 1 else if even q then q else q + 1)"

definition round_pos :: "int \<Rightarrow> int \<Rightarrow> int \<times> int" where
  "round_pos n d =
     (let e = max (floor_log2 n d - 52) (- 1074)
      in if 0 \<le> e then (round_half_even n (d * 2 ^ nat e) * 2 ^ nat e, 1)
         else (round_half_even (n * 2 ^ nat (- e)) d, 2 ^ nat (- e)))"

definition round_double :: "int \<Rightarrow> int \<Rightarrow> int \<times> int" where
  "round_double n d =
     (if n = 0 then (0, 1)
      else if 0 < n then round_pos n d
      else (let (m, d') = round_pos (- n) d in (- m, d')))"

definition float_div :: "int \<Rightarrow> int \<Rightarrow> int \<times> int" where
  "float_div a b = round_double a b"

definition float_mul_int :: "int \<times> int \<Rightarrow> int \<Rightarrow> int \<times> int" where
  "float_mul_int x k = round_double (fst x * k) (snd x)"

definition int_of_float :: "int \<times> int \<Rightarrow> int" where
  "int_of_float x = (if 0 \<le> fst x then fst x div snd x else - ((- fst x) div snd x))"

definition get_batching_metrics :: "state \<Rightarrow> BatchingMetrics" where
  "get_batching_metrics s =
     (let all_batches = List.map_filter (st_get (batches_storage s)) (st_keys (batches_storage s));
          total_batches = int (length all_batches);
          settled_batches = int (length (filter (\<lambda>b. b_status b = ''settled'') all_batches));
          failed_batches = int (length (filter (\<lambda>b. b_status b = ''failed'') all_batches));
          total_volume = sum_list (map b_total_amount all_batches);
          pending_volume =
            sum_list (map b_total_amount (filter (\<lambda>b. b_status b = ''pending'') all_batches));
          avg_batch_size = total_volume div max 1 total_batches;
          success_rate =
            int_of_float (float_mul_int (float_div settled_batches (max 1 total_batches)) 10000);
          active_merchants =
            int (length (filter mc_batching_enabled (st_values (merchant_configs_storage s))))
      in \<lparr>total_batches_processed = total_batches,
          total_volume_batched = total_volume,
          gas_cost_savings = 50000,
          average_batch_size = avg_batch_size,
          merchants_active = active_merchants,
          pending_amount = pending_volume,
          settlement_success_rate = success_rate\<rparr>)"

section \<open>Sequences of calls\<close>

text \<open>
  The canister starts in \<^const>\<open>canister_init\<close> and then serves update calls one after the
  other, each running to completion.
\<close>

datatype call =
    ProcessPayment payment_data env
  | CreateBatch string env
  | SettleBatch string env
  | UpdateConfig string config_data env

fun run_call :: "call \<Rightarrow> state \<Rightarrow> state" where
  "run_call (ProcessPayment pd e) s = snd (process_payment pd e s)"
| "run_call (CreateBatch m e) s = snd (create_batch_for_merchant m e s)"
| "run_call (SettleBatch bid e) s = snd (settle_batch bid e s)"
| "run_call (UpdateConfig m cd e) s = snd (update_merchant_config m cd e s)"

fun run_calls :: "call list \<Rightarrow> state \<Rightarrow> state" where
  "run_calls [] s = s"
| "run_calls (c # cs) s = run_calls cs (run_call c s)"

section \<open>Example inputs\<close>

text \<open>
  Concrete environments, payloads and states on which the theorems below are run.
  Merchant \<^verbatim>\<open>m1\<close> pays with a Business key; after its first payment its configuration is
  changed to \<^verbatim>\<open>min_batch_amount = 100\<close> without auto-settle, so that the third payment of 40
  creates a batch that stays pending.
\<close>

definition ex_env :: "nat \<Rightarrow> int \<Rightarrow> bool \<Rightarrow> env" where
  "ex_env t h ok =
     \<lparr>time = t, payload_hash = h, str_hash = (\<lambda>x. int (length x)),
      rand_success = ok, rand_gas = 150000\<rparr>"

definition ex_pd :: "int \<Rightarrow> payment_data" where
  "ex_pd a =
     \<lparr>pd_api_key = ''ouro_business_k1'', pd_merchant_id = ''m1'', pd_user_wallet = ''w1'',
      pd_amount = a, pd_merchant_address = None\<rparr>"

definition ex_pd_free :: "int \<Rightarrow> payment_data" where
  "ex_pd_free a =
     \<lparr>pd_api_key = ''ouro_free_k2'', pd_merchant_id = ''m2'', pd_user_wallet = ''w2'',
      pd_amount = a, pd_merchant_address = None\<rparr>"

definition ex_cd :: config_data where
  "ex_cd =
     \<lparr>cd_batching_enabled = None, cd_batch_frequency = None, cd_batch_time = None,
      cd_min_batch_amount = Some 100, cd_max_batch_amount = None, cd_auto_settle = Some False\<rparr>"

definition ex_calls :: "call list" where
  "ex_calls =
     [ProcessPayment (ex_pd 40) (ex_env 1 11 True),
      UpdateConfig ''m1'' ex_cd (ex_env 2 0 True),
      ProcessPayment (ex_pd 40) (ex_env 3 12 True),
      ProcessPayment (ex_pd 40) (ex_env 4 13 True)]"

definition ex_config :: MerchantConfig where
  "ex_config =
     \<lparr>mc_merchant_id = ''m1'', mc_merchant_address = [],
      mc_api_key = ''ouro_business_k1'', mc_tier = business,
      mc_batching_enabled = True, mc_batch_frequency = ''daily'',
      mc_batch_day = None, mc_batch_time = ''14:00'',
      mc_min_batch_amount = 100, mc_max_batch_amount = 10000000000,
      mc_auto_settle = False, mc_created_at = ''1'', mc_updated_at = ''2''\<rparr>"

definition ex_payment :: "string \<Rightarrow> string \<Rightarrow> string \<Rightarrow> string option \<Rightarrow> BatchPayment" where
  "ex_payment pid ts status bid =
     \<lparr>bp_payment_id = pid, bp_merchant_id = ''m1'', bp_user_wallet = ''w1'', bp_amount = 40,
      bp_currency = ''USDC'', bp_timestamp = ts, bp_status = status, bp_batch_id = bid,
      bp_transaction_hash = None, bp_error_message = None\<rparr>"

definition ex_pda :: "int \<Rightarrow> int \<Rightarrow> EscrowPDA" where
  "ex_pda bal n =
     \<lparr>pda_address = ''escrow_pda_m1_1'', pda_merchant_id = ''m1'', pda_total_balance = bal,
      pda_pending_batches = n, pda_created_at = ''1'', pda_last_settlement = None,
      pda_is_active = True\<rparr>"

definition ex_batch :: Batch where
  "ex_batch =
     \<lparr>b_batch_id = ''batch_m1_4'', b_merchant_id = ''m1'', b_total_amount = 120,
      b_payment_count = 3, b_created_at = ''4'', b_scheduled_at = ''4'', b_settled_at = None,
      b_status = ''pending'', b_transaction_hash = None, b_gas_used = None, b_gas_cost = None,
      b_error_message = None\<rparr>"

text \<open>The state after the first three calls of \<^const>\<open>ex_calls\<close>: two pending payments.\<close>

definition ex_two_pending :: state where
  "ex_two_pending =
     \<lparr>merchant_configs_storage = [(''m1'', ex_config)],
      batch_payments_storage =
        [(''payment_1_11'', ex_payment ''payment_1_11'' ''1'' ''pending'' None),
         (''payment_3_12'', ex_payment ''payment_3_12'' ''3'' ''pending'' None)],
      batches_storage = [],
      escrow_pdas_storage = [(''m1'', ex_pda 0 0)],
      settle_config_storage = [(''default'', DEFAULT_SETTLE_CONFIG)]\<rparr>"

text \<open>The state after all of \<^const>\<open>ex_calls\<close>: one pending batch of three payments.\<close>

definition ex_pending_batch :: state where
  "ex_pending_batch =
     \<lparr>merchant_configs_storage = [(''m1'', ex_config)],
      batch_payments_storage =
        [(''payment_1_11'', ex_payment ''payment_1_11'' ''1'' ''batched'' (Some ''batch_m1_4'')),
         (''payment_3_12'', ex_payment ''payment_3_12'' ''3'' ''batched'' (Some ''batch_m1_4'')),
         (''payment_4_13'', ex_payment ''payment_4_13'' ''4'' ''batched'' (Some ''batch_m1_4''))],
      batches_storage = [(''batch_m1_4'', ex_batch)],
      escrow_pdas_storage = [(''m1'', ex_pda 120 1)],
      settle_config_storage = [(''default'', DEFAULT_SETTLE_CONFIG)]\<rparr>"

section \<open>Derived notions used in the statements\<close>

text \<open>The third guard of \<^const>\<open>settle_batch\<close>: a settlement configuration exists and is paused.\<close>

definition emergency_paused :: "state \<Rightarrow> bool" where
  "emergency_paused s =
     (case st_get (settle_config_storage s) ''default'' of
        None \<Rightarrow> False
      | Some config \<Rightarrow> sc_emergency_pause config)"

text \<open>
  The two payment rewrites of the source, as functions: the record that
  \<^const>\<open>mark_batched\<close> stores for a collected payment, and the record that
  \<^const>\<open>settle_payments\<close> stores for a payment of the settled batch.
\<close>

definition as_batched :: "string \<Rightarrow> BatchPayment \<Rightarrow> BatchPayment" where
  "as_batched batch_id p = p\<lparr>bp_status := ''batched'', bp_batch_id := Some batch_id\<rparr>"

definition as_settled :: "string option \<Rightarrow> BatchPayment \<Rightarrow> BatchPayment" where
  "as_settled tx p = p\<lparr>bp_status := ''settled'', bp_transaction_hash := tx\<rparr>"

text \<open>One iteration of the loop of \<^const>\<open>settle_payments\<close>.\<close>

definition settle_step ::
  "string \<Rightarrow> string option \<Rightarrow> BatchPayment storage \<Rightarrow> string \<Rightarrow> BatchPayment storage" where
  "settle_step bid tx acc k =
     (case st_get acc k of
        None \<Rightarrow> acc
      | Some p \<Rightarrow> if bp_batch_id p = Some bid then st_insert k (as_settled tx p) acc else acc)"

text \<open>
  Well-formedness of the stores, kept by every call: keys are unique, a payment is
  stored under its own id with one of the statuses the program writes, a pending
  payment has no batch, a configuration is stored under its merchant id, a batch is
  stored under its own id and is pending, settled or failed between calls.
\<close>

definition payment_ok :: "string \<times> BatchPayment \<Rightarrow> bool" where
  "payment_ok kp =
     (bp_payment_id (snd kp) = fst kp \<and>
      bp_status (snd kp) \<in> set [''pending'', ''batched'', ''settled''] \<and>
      (bp_status (snd kp) = ''pending'' \<longrightarrow> bp_batch_id (snd kp) = None))"

definition config_ok :: "string \<times> MerchantConfig \<Rightarrow> bool" where
  "config_ok kc = (mc_merchant_id (snd kc) = fst kc)"

definition batch_ok :: "string \<times> Batch \<Rightarrow> bool" where
  "batch_ok kb =
     (b_batch_id (snd kb) = fst kb \<and>
      b_status (snd kb) \<in> set [''pending'', ''settled'', ''failed''])"

definition store_ok :: "state \<Rightarrow> bool" where
  "store_ok s =
     (distinct (st_keys (batch_payments_storage s)) \<and>
      distinct (st_keys (batches_storage s)) \<and>
      distinct (st_keys (escrow_pdas_storage s)) \<and>
      distinct (st_keys (merchant_configs_storage s)) \<and>
      list_all payment_ok (batch_payments_storage s) \<and>
      list_all config_ok (merchant_configs_storage s) \<and>
      list_all batch_ok (batches_storage s))"

text \<open>
  A state with one hundred batches of merchant \<^verbatim>\<open>m1\<close>, created at times 0 to 99: the first
  57 are settled, the other 43 failed.
\<close>

definition ex_metrics_batch :: "nat \<Rightarrow> Batch" where
  "ex_metrics_batch i =
     \<lparr>b_batch_id = ''batch_m1_'' @ str_nat i, b_merchant_id = ''m1'', b_total_amount = 120,
      b_payment_count = 3, b_created_at = str_nat i, b_scheduled_at = str_nat i,
      b_settled_at = None, b_status = (if i < 57 then ''settled'' else ''failed''),
      b_transaction_hash = None, b_gas_used = None, b_gas_cost = None,
      b_error_message = None\<rparr>"

definition ex_metrics_state :: state where
  "ex_metrics_state =
     \<lparr>merchant_configs_storage = [(''m1'', ex_config)],
      batch_payments_storage = [],
      batches_storage = map (\<lambda>i. (''batch_m1_'' @ str_nat i, ex_metrics_batch i)) [0..<100],
      escrow_pdas_storage = [(''m1'', ex_pda 5160 0)],
      settle_config_storage = [(''default'', DEFAULT_SETTLE_CONFIG)]\<rparr>"






text \<open>
  The order of payment statuses: a status stays, or moves from pending to batched, or
  from batched to settled or failed; \<open>status_forward\<close> also relates pending to a final
  status, reached through batched.
\<close>

definition status_forward :: "string \<Rightarrow> string \<Rightarrow> bool" where
  "status_forward a b =
     (a = b \<or>
      (a = ''pending'' \<and> b \<in> set [''batched'', ''settled'', ''failed'']) \<or>
      (a = ''batched'' \<and> b \<in> set [''settled'', ''failed'']))"



text \<open>
  The sums the balance is compared with: the totals of a merchant's batches that are
  pending or processing, and the same with the failed batches added.
\<close>

definition open_total :: "string \<Rightarrow> state \<Rightarrow> int" where
  "open_total m s =
     sum_list (map b_total_amount
       (filter (\<lambda>b. b_merchant_id b = m \<and> b_status b \<in> set [''pending'', ''processing''])
          (st_values (batches_storage s))))"

definition committed_total :: "string \<Rightarrow> state \<Rightarrow> int" where
  "committed_total m s =
     sum_list (map b_total_amount
       (filter (\<lambda>b. b_merchant_id b = m \<and>
                    b_status b \<in> set [''pending'', ''processing'', ''failed''])
          (st_values (batches_storage s))))"

text \<open>What one batch contributes to the committed total of merchant \<open>m\<close>.\<close>

definition batch_weight :: "string \<Rightarrow> Batch \<Rightarrow> int" where
  "batch_weight m b =
     (if b_merchant_id b = m \<and> b_status b \<in> set [''pending'', ''processing'', ''failed'']
      then b_total_amount b else 0)"

text \<open>
  A call is fresh in a state when its amount is not negative and the batch id it would
  give to a new batch, made of the merchant id and the time, is not stored yet.
\<close>

fun call_fresh :: "call \<Rightarrow> state \<Rightarrow> bool" where
  "call_fresh (ProcessPayment pd e) s =
     (0 \<le> pd_amount pd \<and>
      new_batch_id (pd_merchant_id pd) e \<notin> set (st_keys (batches_storage s)))"
| "call_fresh (CreateBatch m e) s = (new_batch_id m e \<notin> set (st_keys (batches_storage s)))"
| "call_fresh (SettleBatch bid e) s = True"
| "call_fresh (UpdateConfig m cd e) s = True"

fun calls_fresh :: "call list \<Rightarrow> state \<Rightarrow> bool" where
  "calls_fresh [] s = True"
| "calls_fresh (c # cs) s = (call_fresh c s \<and> calls_fresh cs (run_call c s))"

text \<open>
  The invariant of the escrow ledger: amounts and totals are not negative, the merchant
  of every batch and of every pending payment has an escrow PDA, and the balance of
  every PDA is the committed total of its merchant.
\<close>

definition ledger_ok :: "state \<Rightarrow> bool" where
  "ledger_ok s =
     (store_ok s \<and>
      list_all (\<lambda>kp. 0 \<le> bp_amount (snd kp) \<and>
                  (bp_status (snd kp) = ''pending'' \<longrightarrow>
                     st_get (escrow_pdas_storage s) (bp_merchant_id (snd kp)) \<noteq> None))
        (batch_payments_storage s) \<and>
      list_all (\<lambda>kb. 0 \<le> b_total_amount (snd kb) \<and>
                  st_get (escrow_pdas_storage s) (b_merchant_id (snd kb)) \<noteq> None)
        (batches_storage s) \<and>
      list_all (\<lambda>ka. pda_total_balance (snd ka) = committed_total (fst ka) s)
        (escrow_pdas_storage s))"

text \<open>One payment at the maximum amount whose settlement fails.\<close>

definition ex_failed_calls :: "call list" where
  "ex_failed_calls = [ProcessPayment (ex_pd 10000000000) (ex_env 1 11 False)]"

text \<open>
  The states \<^const>\<open>process_payment\<close> passes through, named so that statements can refer to
  them: after the default configuration is stored for a new merchant; on the escrow
  path, after the escrow PDA is looked up or created and the pending payment stored;
  on the direct path, after the settled payment is stored.
\<close>

definition with_default_config :: "payment_data \<Rightarrow> env \<Rightarrow> state \<Rightarrow> state" where
  "with_default_config pd e s =
     (case st_get (merchant_configs_storage s) (pd_merchant_id pd) of
        Some merchant_config \<Rightarrow> s
      | None \<Rightarrow>
          s\<lparr>merchant_configs_storage :=
              st_insert (pd_merchant_id pd)
                \<lparr>mc_merchant_id = pd_merchant_id pd,
                 mc_merchant_address = (case pd_merchant_address pd of None \<Rightarrow> [] | Some a \<Rightarrow> a),
                 mc_api_key = pd_api_key pd,
                 mc_tier = detect_api_tier (pd_api_key pd),
                 mc_batching_enabled = should_use_escrow (pd_api_key pd),
                 mc_batch_frequency = ''daily'',
                 mc_batch_day = None,
                 mc_batch_time = ''14:00'',
                 mc_min_batch_amount = 100000000,
                 mc_max_batch_amount = 10000000000,
                 mc_auto_settle = True,
                 mc_created_at = str_nat (time e),
                 mc_updated_at = str_nat (time e)\<rparr>
                (merchant_configs_storage s)\<rparr>)"

definition with_escrow_payment :: "payment_data \<Rightarrow> env \<Rightarrow> state \<Rightarrow> state" where
  "with_escrow_payment pd e s =
     (let s2 = snd (create_or_get_escrow_pda (pd_merchant_id pd) e (with_default_config pd e s))
      in s2\<lparr>batch_payments_storage :=
              st_insert (new_payment_id e)
                \<lparr>bp_payment_id = new_payment_id e,
                 bp_merchant_id = pd_merchant_id pd,
                 bp_user_wallet = pd_user_wallet pd,
                 bp_amount = pd_amount pd,
                 bp_currency = ''USDC'',
                 bp_timestamp = str_nat (time e),
                 bp_status = ''pending'',
                 bp_batch_id = None,
                 bp_transaction_hash = None,
                 bp_error_message = None\<rparr>
                (batch_payments_storage s2)\<rparr>)"

definition with_direct_payment :: "payment_data \<Rightarrow> env \<Rightarrow> state \<Rightarrow> state" where
  "with_direct_payment pd e s =
     (with_default_config pd e s)
       \<lparr>batch_payments_storage :=
          st_insert (new_payment_id e)
            \<lparr>bp_payment_id = new_payment_id e,
             bp_merchant_id = pd_merchant_id pd,
             bp_user_wallet = pd_user_wallet pd,
             bp_amount = pd_amount pd,
             bp_currency = ''USDC'',
             bp_timestamp = str_nat (time e),
             bp_status = ''settled'',
             bp_batch_id = None,
             bp_transaction_hash =
               Some (''direct_tx_'' @ str_int (str_hash e (new_payment_id e))),
             bp_error_message = None\<rparr>
            (batch_payments_storage (with_default_config pd e s))\<rparr>"

text \<open>
  Calls made at strictly increasing times, with amounts that are not negative. The
  canister is initialised at time \<open>t\<close>.
\<close>

fun call_time :: "call \<Rightarrow> nat" where
  "call_time (ProcessPayment pd e) = time e"
| "call_time (CreateBatch m e) = time e"
| "call_time (SettleBatch bid e) = time e"
| "call_time (UpdateConfig m cd e) = time e"

fun call_amount_ok :: "call \<Rightarrow> bool" where
  "call_amount_ok (ProcessPayment pd e) = (0 \<le> pd_amount pd)"
| "call_amount_ok (CreateBatch m e) = True"
| "call_amount_ok (SettleBatch bid e) = True"
| "call_amount_ok (UpdateConfig m cd e) = True"

fun calls_timed :: "nat \<Rightarrow> call list \<Rightarrow> bool" where
  "calls_timed t [] = True"
| "calls_timed t (c # cs) = (t < call_time c \<and> call_amount_ok c \<and> calls_timed (call_time c) cs)"

section \<open>Storage lemmas\<close>

lemma st_get_insert:
  "st_get (st_insert k v st) k' = (if k' = k then Some v else st_get st k')"
  by (simp add: st_get_def st_insert_def update_conv')

lemma st_insert_twice: "st_insert k v (st_insert k v' st) = st_insert k v st"
  by (simp add: st_insert_def)

lemma st_keys_insert_distinct:
  "distinct (st_keys st) \<Longrightarrow> distinct (st_keys (st_insert k v st))"
  by (simp add: st_keys_def st_insert_def distinct_update)

lemma st_keys_insert_set: "set (st_keys (st_insert k v st)) = insert k (set (st_keys st))"
  using dom_update [of k v st] by (simp add: st_keys_def st_insert_def)

lemma st_get_None_iff: "st_get st k = None \<longleftrightarrow> k \<notin> set (st_keys st)"
  by (simp add: st_get_def st_keys_def map_of_eq_None_iff)

lemma st_insert_fresh: "k \<notin> set (st_keys st) \<Longrightarrow> st_insert k v st = st @ [(k, v)]"
  by (induction st) (auto simp: st_insert_def st_keys_def)

lemma st_insert_existing:
  "distinct (st_keys st) \<Longrightarrow> k \<in> set (st_keys st) \<Longrightarrow>
   st_insert k v st = map (\<lambda>(k', v'). if k' = k then (k, v) else (k', v')) st"
proof (induction st)
  case Nil
  then show ?case by (simp add: st_keys_def)
next
  case (Cons x st)
  show ?case
  proof (cases "fst x = k")
    case True
    with Cons.prems have "k \<notin> fst ` set st" by (simp add: st_keys_def)
    then have "map (\<lambda>(k', v'). if k' = k then (k, v) else (k', v')) st = st"
      by (intro map_idI) (force simp: image_iff)
    with True show ?thesis by (cases x) (simp add: st_insert_def)
  next
    case False
    with Cons show ?thesis by (cases x) (auto simp: st_insert_def st_keys_def)
  qed
qed

lemma st_keys_insert_existing:
  "k \<in> set (st_keys st) \<Longrightarrow> st_keys (st_insert k v st) = st_keys st"
  by (simp add: st_keys_def st_insert_def update_keys)

lemma st_get_in_set: "st_get st k = Some v \<Longrightarrow> (k, v) \<in> set st"
  by (simp add: st_get_def map_of_SomeD)

lemma st_in_set_get: "distinct (st_keys st) \<Longrightarrow> (k, v) \<in> set st \<Longrightarrow> st_get st k = Some v"
  by (simp add: st_get_def st_keys_def)

lemma alist_eqI:
  "map fst xs = map fst ys \<Longrightarrow> distinct (map fst xs) \<Longrightarrow> map_of xs = map_of ys \<Longrightarrow> xs = ys"
proof (induction xs arbitrary: ys)
  case Nil
  then show ?case by simp
next
  case (Cons x xs)
  then obtain y ys' where ys: "ys = y # ys'" by (cases ys) auto
  from Cons.prems ys have k: "fst x = fst y" and ks: "map fst xs = map fst ys'" by auto
  from Cons.prems(3) have "map_of (x # xs) (fst x) = map_of ys (fst x)" by (rule fun_cong)
  with ys k have v: "snd x = snd y" by (cases x; cases y) auto
  have "map_of xs = map_of ys'"
  proof
    fix a
    show "map_of xs a = map_of ys' a"
    proof (cases "a = fst x")
      case True
      with Cons.prems(2) ks have "a \<notin> fst ` set xs" "a \<notin> fst ` set ys'"
        by (auto simp flip: set_map simp del: set_map)
      then have "map_of xs a = None" "map_of ys' a = None"
        by (simp_all only: map_of_eq_None_iff not_False_eq_True)
      then show ?thesis by simp
    next
      case False
      from Cons.prems(3) have "map_of (x # xs) a = map_of (y # ys') a" using ys by (simp add: fun_eq_iff)
      with False k show ?thesis by (cases x; cases y) (auto split: if_splits)
    qed
  qed
  with Cons.IH [OF ks] Cons.prems(2) have "xs = ys'" by simp
  with k v ys show ?case by (cases x; cases y) auto
qed

lemma st_get_eq: "st_get st = map_of st"
  by (simp add: fun_eq_iff st_get_def)

lemma map_filter_cong_set:
  "(\<And>k. k \<in> set ks \<Longrightarrow> f k = g k) \<Longrightarrow> List.map_filter f ks = List.map_filter g ks"
proof (induction ks)
  case Nil
  then show ?case by (simp add: List.map_filter_simps)
next
  case (Cons a ks)
  then have "List.map_filter f ks = List.map_filter g ks" and "f a = g a" by simp_all
  then show ?case by (auto simp: List.map_filter_simps split: option.splits)
qed

lemma values_via_keys:
  "distinct (st_keys st) \<Longrightarrow> List.map_filter (st_get st) (st_keys st) = st_values st"
proof (induction st)
  case Nil
  then show ?case by (simp add: st_keys_def st_values_def List.map_filter_simps)
next
  case (Cons x st)
  obtain a b where x: "x = (a, b)" by (cases x)
  from Cons.prems x have nk: "a \<notin> set (st_keys st)" and d: "distinct (st_keys st)"
    by (simp_all add: st_keys_def)
  have step: "List.map_filter (st_get (x # st)) (st_keys (x # st))
                = b # List.map_filter (st_get (x # st)) (st_keys st)"
    by (simp add: x st_keys_def st_get_def List.map_filter_simps)
  have "List.map_filter (st_get (x # st)) (st_keys st) = List.map_filter (st_get st) (st_keys st)"
    by (rule map_filter_cong_set) (use nk in \<open>auto simp: st_get_def x\<close>)
  with step Cons.IH [OF d] show ?case
    by (simp add: x st_values_def)
qed

section \<open>The example states are reachable\<close>

lemmas model_defs = process_payment_def create_batch_for_merchant_def create_batch_records_def
  settle_batch_def update_merchant_config_def should_create_batch_def pending_payments_of_def
  mark_batched_def settle_payments_def create_or_get_escrow_pda_def new_payment_id_def
  new_batch_id_def should_use_escrow_def detect_api_tier_def st_get_def st_insert_def st_keys_def
  st_values_def canister_init_def DEFAULT_SETTLE_CONFIG_def str_int_def digit_char_def
  List.map_filter_def Let_def

lemmas ex_defs = ex_env_def ex_pd_def ex_pd_free_def ex_cd_def ex_config_def ex_payment_def
  ex_pda_def ex_batch_def ex_two_pending_def ex_pending_batch_def

lemma ex_two_pending_run: "run_calls (take 3 ex_calls) canister_init = ex_two_pending"
  by (simp add: ex_calls_def ex_defs model_defs str_nat.simps)

lemma ex_pending_batch_run: "run_calls ex_calls canister_init = ex_pending_batch"
  by (simp add: ex_calls_def ex_defs model_defs str_nat.simps)




section \<open>What \<^const>\<open>settle_batch\<close> does in each branch\<close>

lemma Batch_rebuild:
  "\<lparr>b_batch_id = b_batch_id b, b_merchant_id = b_merchant_id b,
    b_total_amount = b_total_amount b, b_payment_count = b_payment_count b,
    b_created_at = b_created_at b, b_scheduled_at = b_scheduled_at b,
    b_settled_at = sa, b_status = st, b_transaction_hash = tx, b_gas_used = gu,
    b_gas_cost = gc, b_error_message = em\<rparr>
   = b\<lparr>b_settled_at := sa, b_status := st, b_transaction_hash := tx, b_gas_used := gu,
       b_gas_cost := gc, b_error_message := em\<rparr>"
  by (cases b) simp

lemma BatchPayment_rebuild:
  "\<lparr>bp_payment_id = bp_payment_id p, bp_merchant_id = bp_merchant_id p,
    bp_user_wallet = bp_user_wallet p, bp_amount = bp_amount p,
    bp_currency = bp_currency p, bp_timestamp = bp_timestamp p,
    bp_status = st, bp_batch_id = bid, bp_transaction_hash = tx,
    bp_error_message = bp_error_message p\<rparr>
   = p\<lparr>bp_status := st, bp_batch_id := bid, bp_transaction_hash := tx\<rparr>"
  by (cases p) simp

lemma EscrowPDA_rebuild:
  "\<lparr>pda_address = pda_address a, pda_merchant_id = pda_merchant_id a,
    pda_total_balance = bal, pda_pending_batches = n, pda_created_at = pda_created_at a,
    pda_last_settlement = ls, pda_is_active = pda_is_active a\<rparr>
   = a\<lparr>pda_total_balance := bal, pda_pending_batches := n, pda_last_settlement := ls\<rparr>"
  by (cases a) simp

lemma settle_batch_rejected:
  "st_get (batches_storage s) bid = None \<or>
   (\<exists>b. st_get (batches_storage s) bid = Some b \<and> b_status b \<noteq> ''pending'') \<or>
   emergency_paused s
   \<Longrightarrow> settle_batch bid e s = (False, s)"
  by (auto simp: settle_batch_def emergency_paused_def split: option.splits)

lemma settle_batch_failure:
  assumes "st_get (batches_storage s) bid = Some b" "b_status b = ''pending''"
    "\<not> emergency_paused s" "\<not> rand_success e"
  shows "settle_batch bid e s =
    (False, s\<lparr>batches_storage :=
       st_insert bid
         (b\<lparr>b_status := ''failed'', b_transaction_hash := None, b_gas_used := None,
            b_gas_cost := None, b_error_message := Some ''Settlement transaction failed''\<rparr>)
         (batches_storage s)\<rparr>)"
  using assms
  by (simp add: settle_batch_def emergency_paused_def Let_def st_insert_twice Batch_rebuild)

lemma settle_batch_success:
  assumes "st_get (batches_storage s) bid = Some b" "b_status b = ''pending''"
    "\<not> emergency_paused s" "rand_success e"
  shows "settle_batch bid e s =
    (True,
     (let tx = Some (''settle_tx_'' @ str_int (str_hash e (bid @ str_nat (time e))));
          s3 = s\<lparr>batches_storage :=
                   st_insert bid
                     (b\<lparr>b_status := ''settled'', b_transaction_hash := tx,
                        b_gas_used := Some (rand_gas e), b_gas_cost := Some (rand_gas e * 25),
                        b_error_message := None\<rparr>)
                     (batches_storage s),
                 batch_payments_storage := settle_payments bid tx (batch_payments_storage s)\<rparr>
      in case st_get (escrow_pdas_storage s) (b_merchant_id b) of
           None \<Rightarrow> s3
         | Some pda \<Rightarrow>
             s3\<lparr>escrow_pdas_storage :=
                  st_insert (b_merchant_id b)
                    (pda\<lparr>pda_total_balance := max 0 (pda_total_balance pda - b_total_amount b),
                         pda_pending_batches := max 0 (pda_pending_batches pda - 1),
                         pda_last_settlement := b_settled_at b\<rparr>)
                    (escrow_pdas_storage s)\<rparr>))"
  using assms
  by (simp add: settle_batch_def emergency_paused_def Let_def st_insert_twice Batch_rebuild
      EscrowPDA_rebuild split: option.splits)

lemma settle_batch_leaves_non_pending:
  "st_get (batches_storage (snd (settle_batch bid e s))) bid = None \<or>
   (\<exists>b. st_get (batches_storage (snd (settle_batch bid e s))) bid = Some b \<and> b_status b \<noteq> ''pending'') \<or>
   emergency_paused (snd (settle_batch bid e s))"
  by (auto simp: settle_batch_def Let_def st_get_insert emergency_paused_def split: option.splits)

lemma ex_pending_batch_get:
  "st_get (batches_storage ex_pending_batch) ''batch_m1_4'' = Some ex_batch"
  "b_status ex_batch = ''pending''"
  "\<not> emergency_paused ex_pending_batch"
  by (simp_all add: ex_pending_batch_def ex_batch_def st_get_def emergency_paused_def
      DEFAULT_SETTLE_CONFIG_def)

section \<open>The two payment loops\<close>

lemma st_insert_set: "set (st_insert k v st) \<subseteq> insert (k, v) (set st)"
  by (induction st) (auto simp: st_insert_def)

lemma st_insert_list_all:
  "list_all P st \<Longrightarrow> P (k, v) \<Longrightarrow> list_all P (st_insert k v st)"
  using st_insert_set [of k v st] by (auto simp: list_all_iff)

lemma mark_batched_Nil: "mark_batched bid [] st = st"
  by (simp add: mark_batched_def)

lemma mark_batched_Cons:
  "mark_batched bid (p # ps) st
     = mark_batched bid ps (st_insert (bp_payment_id p) (as_batched bid p) st)"
  by (simp add: mark_batched_def as_batched_def BatchPayment_rebuild)

lemma mark_batched_get_other:
  "k \<notin> bp_payment_id ` set ps \<Longrightarrow> st_get (mark_batched bid ps st) k = st_get st k"
  by (induction ps arbitrary: st) (simp_all add: mark_batched_Nil mark_batched_Cons st_get_insert)

lemma mark_batched_get_member:
  "k \<in> bp_payment_id ` set ps \<Longrightarrow>
   \<exists>p \<in> set ps. bp_payment_id p = k \<and> st_get (mark_batched bid ps st) k = Some (as_batched bid p)"
proof (induction ps arbitrary: st)
  case Nil
  then show ?case by simp
next
  case (Cons p ps)
  show ?case
  proof (cases "k \<in> bp_payment_id ` set ps")
    case True
    from Cons.IH [OF True] show ?thesis by (auto simp: mark_batched_Cons)
  next
    case False
    with Cons.prems have "bp_payment_id p = k" by auto
    with False show ?thesis
      by (simp add: mark_batched_Cons mark_batched_get_other st_get_insert)
  qed
qed


lemma mark_batched_distinct:
  "distinct (st_keys st) \<Longrightarrow> distinct (st_keys (mark_batched bid ps st))"
  by (induction ps arbitrary: st)
    (simp_all add: mark_batched_Nil mark_batched_Cons st_keys_insert_distinct)

lemma mark_batched_list_all:
  "list_all P st \<Longrightarrow> (\<And>p. p \<in> set ps \<Longrightarrow> P (bp_payment_id p, as_batched bid p)) \<Longrightarrow>
   list_all P (mark_batched bid ps st)"
  by (induction ps arbitrary: st)
    (simp_all add: mark_batched_Nil mark_batched_Cons st_insert_list_all)

lemma settle_payments_fold:
  "settle_payments bid tx st = foldl (settle_step bid tx) st (st_keys st)"
proof -
  have "(\<lambda>acc payment_id.
              case st_get acc payment_id of
                None \<Rightarrow> acc
              | Some payment \<Rightarrow>
                  if bp_batch_id payment \<noteq> None \<and> the (bp_batch_id payment) = bid
                  then st_insert payment_id
                         \<lparr>bp_payment_id = bp_payment_id payment,
                          bp_merchant_id = bp_merchant_id payment,
                          bp_user_wallet = bp_user_wallet payment,
                          bp_amount = bp_amount payment,
                          bp_currency = bp_currency payment,
                          bp_timestamp = bp_timestamp payment,
                          bp_status = ''settled'',
                          bp_batch_id = bp_batch_id payment,
                          bp_transaction_hash = tx,
                          bp_error_message = bp_error_message payment\<rparr> acc
                  else acc) = settle_step bid tx"
  proof (intro ext)
    fix acc k
    show "(case st_get acc k of
                None \<Rightarrow> acc
              | Some payment \<Rightarrow>
                  if bp_batch_id payment \<noteq> None \<and> the (bp_batch_id payment) = bid
                  then st_insert k
                         \<lparr>bp_payment_id = bp_payment_id payment,
                          bp_merchant_id = bp_merchant_id payment,
                          bp_user_wallet = bp_user_wallet payment,
                          bp_amount = bp_amount payment,
                          bp_currency = bp_currency payment,
                          bp_timestamp = bp_timestamp payment,
                          bp_status = ''settled'',
                          bp_batch_id = bp_batch_id payment,
                          bp_transaction_hash = tx,
                          bp_error_message = bp_error_message payment\<rparr> acc
                  else acc) = settle_step bid tx acc k"
    proof (cases "st_get acc k")
      case None
      then show ?thesis by (simp add: settle_step_def)
    next
      case (Some p)
      then show ?thesis
        by (cases p) (auto simp: settle_step_def as_settled_def)
    qed
  qed
  then show ?thesis by (simp add: settle_payments_def)
qed

lemma settle_step_get:
  "st_get (settle_step bid tx acc k) k' =
     (if k' = k then map_option (\<lambda>p. if bp_batch_id p = Some bid then as_settled tx p else p) (st_get acc k)
      else st_get acc k')"
  by (auto simp: settle_step_def st_get_insert split: option.splits)

lemma settle_step_keys: "st_keys (settle_step bid tx acc k) = st_keys acc"
  by (auto simp: settle_step_def st_keys_insert_existing st_get_None_iff split: option.splits)
    (metis option.distinct(1) st_get_None_iff st_keys_insert_existing)

lemma settle_fold_get:
  "st_get (foldl (settle_step bid tx) st ks) k =
     (if k \<in> set ks
      then map_option (\<lambda>p. if bp_batch_id p = Some bid then as_settled tx p else p) (st_get st k)
      else st_get st k)"
proof (induction ks arbitrary: st)
  case Nil
  then show ?case by simp
next
  case (Cons a ks)
  show ?case
    by (cases "st_get st k") (auto simp: Cons.IH settle_step_get as_settled_def)
qed

lemma settle_fold_keys: "st_keys (foldl (settle_step bid tx) st ks) = st_keys st"
  by (induction ks arbitrary: st) (simp_all add: settle_step_keys)

lemma settle_payments_get:
  "st_get (settle_payments bid tx st) k =
     map_option (\<lambda>p. if bp_batch_id p = Some bid then as_settled tx p else p) (st_get st k)"
proof (cases "st_get st k")
  case None
  then have "k \<notin> set (st_keys st)" by (simp add: st_get_None_iff)
  with None show ?thesis by (simp add: settle_payments_fold settle_fold_get)
next
  case (Some p)
  then have "k \<in> set (st_keys st)" using st_get_None_iff [of st k] by auto
  then show ?thesis by (simp add: settle_payments_fold settle_fold_get)
qed

lemma settle_payments_keys: "st_keys (settle_payments bid tx st) = st_keys st"
  by (simp add: settle_payments_fold settle_fold_keys)

lemma storage_eq_map:
  assumes "distinct (st_keys st)" "st_keys st' = st_keys st"
    "\<And>k. st_get st' k = map_option (f k) (st_get st k)"
  shows "st' = map (\<lambda>(k, v). (k, f k v)) st"
proof (rule alist_eqI)
  show "map fst st' = map fst (map (\<lambda>(k, v). (k, f k v)) st)"
    using assms(2) by (simp add: st_keys_def comp_def case_prod_unfold)
  show "distinct (map fst st')" using assms(1,2) by (simp add: st_keys_def)
  show "map_of st' = map_of (map (\<lambda>(k, v). (k, f k v)) st)"
  proof
    fix k
    have "map_of (map (\<lambda>(k, v). (k, f k v)) st) k = map_option (f k) (map_of st k)"
      by (induction st) auto
    with assms(3) [of k] show "map_of st' k = map_of (map (\<lambda>(k, v). (k, f k v)) st) k"
      by (simp add: st_get_def)
  qed
qed

lemma settle_payments_map:
  "distinct (st_keys st) \<Longrightarrow>
   settle_payments bid tx st
     = map (\<lambda>(k, p). (k, if bp_batch_id p = Some bid then as_settled tx p else p)) st"
  by (rule storage_eq_map) (simp_all add: settle_payments_keys settle_payments_get)

section \<open>Well-formed stores\<close>

lemma settle_batch_cases [case_names rejected failed succeeded]:
  obtains "settle_batch bid e s = (False, s)"
  | b where "st_get (batches_storage s) bid = Some b" "b_status b = ''pending''"
      "\<not> emergency_paused s" "\<not> rand_success e"
  | b where "st_get (batches_storage s) bid = Some b" "b_status b = ''pending''"
      "\<not> emergency_paused s" "rand_success e"
proof (cases "st_get (batches_storage s) bid")
  case None
  then show ?thesis using that(1) settle_batch_rejected by blast
next
  case (Some b)
  show ?thesis
  proof (cases "b_status b = ''pending'' \<and> \<not> emergency_paused s")
    case True
    with Some that(2,3) show ?thesis by blast
  next
    case False
    with Some have "settle_batch bid e s = (False, s)"
      by (intro settle_batch_rejected) auto
    with that(1) show ?thesis by blast
  qed
qed

lemma list_all_in_get: "list_all P st \<Longrightarrow> st_get st k = Some v \<Longrightarrow> P (k, v)"
  by (auto simp: list_all_iff dest: st_get_in_set)

lemma store_ok_settle_batch: "store_ok s \<Longrightarrow> store_ok (snd (settle_batch bid e s))"
proof (cases rule: settle_batch_cases [of bid e s])
  case rejected
  assume "store_ok s"
  with rejected show ?thesis by simp
next
  case (failed b)
  assume ok: "store_ok s"
  from ok failed(1) have "batch_ok (bid, b)" by (auto simp: store_ok_def intro: list_all_in_get)
  with ok show ?thesis
    by (simp add: settle_batch_failure [OF failed] store_ok_def st_keys_insert_distinct
        st_insert_list_all batch_ok_def)
next
  case (succeeded b)
  assume ok: "store_ok s"
  from ok succeeded(1) have b: "batch_ok (bid, b)" by (auto simp: store_ok_def intro: list_all_in_get)
  have "payment_ok (k, if bp_batch_id p = Some bid then as_settled tx p else p)"
    if "payment_ok (k, p)" for k p tx
    using that by (simp add: payment_ok_def as_settled_def)
  with ok have p: "list_all payment_ok
      (settle_payments bid tx (batch_payments_storage s))" for tx
    by (fastforce simp: store_ok_def settle_payments_map list_all_iff)
  from ok b p show ?thesis
    by (simp add: settle_batch_success [OF succeeded] store_ok_def st_keys_insert_distinct
        st_insert_list_all batch_ok_def Let_def settle_payments_keys split: option.splits)
qed

lemma pending_payments_of_mem:
  "p \<in> set (pending_payments_of m st) \<longleftrightarrow>
     (\<exists>k. st_get st k = Some p) \<and> bp_merchant_id p = m \<and> bp_status p = ''pending''"
proof -
  have "v \<in> set (List.map_filter (st_get st) (st_keys st)) \<longleftrightarrow> (\<exists>k. st_get st k = Some v)" for v
  proof
    assume "v \<in> set (List.map_filter (st_get st) (st_keys st))"
    then show "\<exists>k. st_get st k = Some v" by (auto simp: List.map_filter_def)
  next
    assume "\<exists>k. st_get st k = Some v"
    then obtain k where k: "st_get st k = Some v" ..
    then have "k \<in> set (st_keys st)" using st_get_None_iff [of st k] by auto
    with k show "v \<in> set (List.map_filter (st_get st) (st_keys st))"
      by (force simp: List.map_filter_def image_iff)
  qed
  then show ?thesis by (auto simp: pending_payments_of_def)
qed

lemma store_ok_create_batch_records:
  assumes "store_ok s" "pend = pending_payments_of m (batch_payments_storage s)"
  shows "store_ok (create_batch_records m pend e s)"
proof -
  have "list_all payment_ok (mark_batched bid pend (batch_payments_storage s))" for bid
    using assms(1)
    by (intro mark_batched_list_all) (auto simp: store_ok_def payment_ok_def as_batched_def)
  with assms(1) show ?thesis
    by (simp add: create_batch_records_def Let_def store_ok_def st_keys_insert_distinct
        st_insert_list_all mark_batched_distinct batch_ok_def split: option.splits)
qed

lemma store_ok_create_batch_for_merchant:
  "store_ok s \<Longrightarrow> store_ok (snd (create_batch_for_merchant m e s))"
  by (simp add: create_batch_for_merchant_def Let_def store_ok_create_batch_records
      store_ok_settle_batch split: option.splits)

lemma store_ok_update_merchant_config:
  "store_ok s \<Longrightarrow> store_ok (snd (update_merchant_config m cd e s))"
  by (simp add: update_merchant_config_def Let_def store_ok_def st_keys_insert_distinct
      st_insert_list_all config_ok_def split: option.splits)

lemma store_ok_process_payment: "store_ok s \<Longrightarrow> store_ok (snd (process_payment pd e s))"
proof -
  assume ok: "store_ok s"
  define s1 where "s1 = (case st_get (merchant_configs_storage s) (pd_merchant_id pd) of
                  Some merchant_config \<Rightarrow> s
                | None \<Rightarrow>
                    s\<lparr>merchant_configs_storage :=
                        st_insert (pd_merchant_id pd)
                          \<lparr>mc_merchant_id = pd_merchant_id pd,
                           mc_merchant_address =
                             (case pd_merchant_address pd of None \<Rightarrow> [] | Some a \<Rightarrow> a),
                           mc_api_key = pd_api_key pd,
                           mc_tier = detect_api_tier (pd_api_key pd),
                           mc_batching_enabled = should_use_escrow (pd_api_key pd),
                           mc_batch_frequency = ''daily'',
                           mc_batch_day = None,
                           mc_batch_time = ''14:00'',
                           mc_min_batch_amount = 100000000,
                           mc_max_batch_amount = 10000000000,
                           mc_auto_settle = True,
                           mc_created_at = str_nat (time e),
                           mc_updated_at = str_nat (time e)\<rparr>
                          (merchant_configs_storage s)\<rparr>)"
  have ok1: "store_ok s1"
    using ok by (simp add: s1_def store_ok_def st_keys_insert_distinct st_insert_list_all
        config_ok_def split: option.splits)
  have ok2: "store_ok (snd (create_or_get_escrow_pda (pd_merchant_id pd) e s1))"
    using ok1 by (simp add: create_or_get_escrow_pda_def store_ok_def st_keys_insert_distinct
        Let_def split: option.splits)
  have ins: "store_ok (s'\<lparr>batch_payments_storage :=
      st_insert (new_payment_id e) p (batch_payments_storage s')\<rparr>)"
    if "store_ok s'" "payment_ok (new_payment_id e, p)" for s' p
    using that by (simp add: store_ok_def st_keys_insert_distinct st_insert_list_all)
  show ?thesis
    unfolding process_payment_def Let_def s1_def [symmetric]
    by (auto intro!: ins store_ok_create_batch_for_merchant ok1 ok2 simp: payment_ok_def)
qed

lemma store_ok_init: "store_ok canister_init"
  by (simp add: store_ok_def canister_init_def st_keys_def)

lemma store_ok_run_call: "store_ok s \<Longrightarrow> store_ok (run_call c s)"
  by (cases c) (simp_all add: store_ok_process_payment store_ok_create_batch_for_merchant
      store_ok_settle_batch store_ok_update_merchant_config)

lemma store_ok_run_calls: "store_ok s \<Longrightarrow> store_ok (run_calls cs s)"
  by (induction cs arbitrary: s) (simp_all add: store_ok_run_call)

section \<open>Decimal strings\<close>

lemma digit_char_inj: "a < 10 \<Longrightarrow> b < 10 \<Longrightarrow> digit_char a = digit_char b \<Longrightarrow> a = b"
proof -
  assume "a < 10" "b < 10" "digit_char a = digit_char b"
  moreover have "distinct ''0123456789''" by simp
  ultimately show "a = b"
    unfolding digit_char_def by (subst (asm) nth_eq_iff_index_eq) simp_all
qed

lemma str_nat_not_Nil [simp]: "str_nat n \<noteq> []" "[] \<noteq> str_nat n"
  by (subst str_nat.simps, simp)+

lemma str_nat_inj: "str_nat n = str_nat m \<Longrightarrow> n = m"
proof (induction n arbitrary: m rule: str_nat.induct)
  case (1 n)
  show ?case
  proof (cases "n < 10")
    case n: True
    show ?thesis
    proof (cases "m < 10")
      case True
      with n "1.prems" show ?thesis
        by (simp add: str_nat.simps [of n] str_nat.simps [of m] digit_char_inj)
    next
      case False
      with n "1.prems" show ?thesis
        by (simp add: str_nat.simps [of n] str_nat.simps [of m])
    qed
  next
    case n: False
    show ?thesis
    proof (cases "m < 10")
      case True
      with n "1.prems" show ?thesis
        by (simp add: str_nat.simps [of n] str_nat.simps [of m])
    next
      case False
      with n "1.prems" have e: "str_nat (n div 10) = str_nat (m div 10)"
        and d: "digit_char (n mod 10) = digit_char (m mod 10)"
        by (simp_all add: str_nat.simps [of n] str_nat.simps [of m])
      from "1.IH" [OF n e] have "n div 10 = m div 10" .
      moreover from d have "n mod 10 = m mod 10" by (intro digit_char_inj) simp_all
      ultimately show ?thesis by (metis div_mult_mod_eq)
    qed
  qed
qed

section \<open>Metrics\<close>

lemma count_below: "length (filter (\<lambda>i. i < k) [0..<n]) = min k n"
  by (induction n) auto

lemma metrics_values:
  assumes "distinct (st_keys (batches_storage s))"
  shows "get_batching_metrics s =
    \<lparr>total_batches_processed = int (length (st_values (batches_storage s))),
     total_volume_batched = sum_list (map b_total_amount (st_values (batches_storage s))),
     gas_cost_savings = 50000,
     average_batch_size =
       sum_list (map b_total_amount (st_values (batches_storage s)))
         div max 1 (int (length (st_values (batches_storage s)))),
     merchants_active =
       int (length (filter mc_batching_enabled (st_values (merchant_configs_storage s)))),
     pending_amount =
       sum_list (map b_total_amount
         (filter (\<lambda>b. b_status b = ''pending'') (st_values (batches_storage s)))),
     settlement_success_rate =
       int_of_float (float_mul_int
         (float_div (int (length (filter (\<lambda>b. b_status b = ''settled'')
                                    (st_values (batches_storage s)))))
            (max 1 (int (length (st_values (batches_storage s)))))) 10000)\<rparr>"
  by (simp add: get_batching_metrics_def Let_def values_via_keys [OF assms])

lemma bit_length_1: "bit_length (Suc 0) = 1"
  by (simp add: bit_length.simps)

lemma bit_length_5699: "bit_length 5699 = 13"
  by (simp add: bit_length.simps)

lemma floor_log2_57_100: "floor_log2 57 100 = - 1"
  by (simp add: floor_log2_def bit_length_1)

lemma float_div_57_100: "float_div 57 100 = (5134103575202365, 9007199254740992)"
  by (simp add: float_div_def round_double_def round_pos_def floor_log2_57_100
      round_half_even_def Let_def)

lemma floor_log2_product: "floor_log2 (5134103575202365 * 10000) 9007199254740992 = 12"
  by (simp add: floor_log2_def bit_length_5699)

lemma float_mul_57_100:
  "float_mul_int (5134103575202365, 9007199254740992) 10000 = (6267216278323199, 1099511627776)"
  using floor_log2_product
  by (simp add: float_mul_int_def round_double_def round_pos_def round_half_even_def Let_def)

lemma float_rate_57_100: "int_of_float (float_mul_int (float_div 57 100) 10000) = 5699"
  by (simp add: float_div_57_100 float_mul_57_100 int_of_float_def)

lemma ex_metrics_distinct: "distinct (st_keys (batches_storage ex_metrics_state))"
  by (auto simp: ex_metrics_state_def st_keys_def comp_def distinct_map inj_on_def
      dest: str_nat_inj)

lemma ex_metrics_counts:
  "length (st_values (batches_storage ex_metrics_state)) = 100"
  "length (filter (\<lambda>b. b_status b = ''settled'') (st_values (batches_storage ex_metrics_state))) = 57"
proof -
  show "length (st_values (batches_storage ex_metrics_state)) = 100"
    by (simp add: ex_metrics_state_def st_values_def)
  have "filter (\<lambda>b. b_status b = ''settled'') (st_values (batches_storage ex_metrics_state))
          = map ex_metrics_batch (filter (\<lambda>i. i < 57) [0..<100])"
    by (simp add: ex_metrics_state_def st_values_def comp_def filter_map ex_metrics_batch_def)
  then show "length (filter (\<lambda>b. b_status b = ''settled'')
      (st_values (batches_storage ex_metrics_state))) = 57"
    by (simp add: count_below del: upt_Suc)
qed

lemma metrics_empty:
  "batches_storage s = [] \<Longrightarrow>
   settlement_success_rate (get_batching_metrics s) = 0 \<and>
   average_batch_size (get_batching_metrics s) = 0"
  by (simp add: get_batching_metrics_def Let_def st_keys_def List.map_filter_simps
      float_div_def round_double_def float_mul_int_def int_of_float_def)

section \<open>Marking the collected payments\<close>


lemma pending_stored_under_id:
  assumes "list_all payment_ok st" "p \<in> set (pending_payments_of m st)"
  shows "st_get st (bp_payment_id p) = Some p"
proof -
  from assms(2) obtain k where k: "st_get st k = Some p"
    by (auto simp: pending_payments_of_mem)
  with assms(1) have "payment_ok (k, p)" by (rule list_all_in_get)
  with k show ?thesis by (simp add: payment_ok_def)
qed

lemma mark_batched_pending_get:
  assumes "list_all payment_ok st"
  shows "st_get (mark_batched bid (pending_payments_of m st) st) k
    = map_option (\<lambda>p. if bp_merchant_id p = m \<and> bp_status p = ''pending''
                       then as_batched bid p else p) (st_get st k)"
proof (cases "k \<in> bp_payment_id ` set (pending_payments_of m st)")
  case True
  from mark_batched_get_member [OF True, of bid st]
  obtain p where p: "p \<in> set (pending_payments_of m st)" "bp_payment_id p = k"
    "st_get (mark_batched bid (pending_payments_of m st) st) k = Some (as_batched bid p)"
    by blast
  from pending_stored_under_id [OF assms p(1)] p(2) have "st_get st k = Some p" by simp
  with p show ?thesis by (simp add: pending_payments_of_mem)
next
  case False
  have "\<not> (bp_merchant_id v = m \<and> bp_status v = ''pending'')" if v: "st_get st k = Some v" for v
  proof
    assume "bp_merchant_id v = m \<and> bp_status v = ''pending''"
    with v have mem: "v \<in> set (pending_payments_of m st)"
      by (auto simp: pending_payments_of_mem)
    from assms v have "payment_ok (k, v)" by (rule list_all_in_get)
    then have "bp_payment_id v = k" by (simp add: payment_ok_def)
    with mem False show False by auto
  qed
  then show ?thesis
    by (cases "st_get st k") (auto simp: mark_batched_get_other [OF False])
qed




section \<open>What \<^const>\<open>create_batch_records\<close> writes\<close>

lemma create_batch_records_batches:
  "batches_storage (create_batch_records m pend e s)
     = st_insert (new_batch_id m e)
         \<lparr>b_batch_id = new_batch_id m e, b_merchant_id = m,
          b_total_amount = sum_list (map bp_amount pend),
          b_payment_count = int (length pend),
          b_created_at = str_nat (time e), b_scheduled_at = str_nat (time e),
          b_settled_at = None, b_status = ''pending'', b_transaction_hash = None,
          b_gas_used = None, b_gas_cost = None, b_error_message = None\<rparr>
         (batches_storage s)"
  by (simp add: create_batch_records_def Let_def split: option.splits)

lemma create_batch_records_payments:
  "batch_payments_storage (create_batch_records m pend e s)
     = mark_batched (new_batch_id m e) pend (batch_payments_storage s)"
  by (simp add: create_batch_records_def Let_def split: option.splits)

lemma create_batch_records_escrow:
  "escrow_pdas_storage (create_batch_records m pend e s)
     = (case st_get (escrow_pdas_storage s) m of
          None \<Rightarrow> escrow_pdas_storage s
        | Some pda \<Rightarrow>
            st_insert m
              (pda\<lparr>pda_total_balance := pda_total_balance pda + sum_list (map bp_amount pend),
                   pda_pending_batches := pda_pending_batches pda + 1\<rparr>)
              (escrow_pdas_storage s))"
  by (simp add: create_batch_records_def Let_def EscrowPDA_rebuild split: option.splits)

lemma create_batch_records_others:
  "merchant_configs_storage (create_batch_records m pend e s) = merchant_configs_storage s"
  "settle_config_storage (create_batch_records m pend e s) = settle_config_storage s"
  by (simp_all add: create_batch_records_def Let_def split: option.splits)


section \<open>Payment statuses move forward\<close>

lemma status_forward_refl [simp]: "status_forward a a"
  by (simp add: status_forward_def)








section \<open>The escrow ledger invariant\<close>

lemma list_all_get_iff:
  "distinct (st_keys st) \<Longrightarrow>
   list_all P st \<longleftrightarrow> (\<forall>k v. st_get st k = Some v \<longrightarrow> P (k, v))"
  by (auto simp: list_all_iff st_in_set_get dest: st_get_in_set)

lemma committed_total_weight:
  "committed_total m s = sum_list (map (batch_weight m) (st_values (batches_storage s)))"
  unfolding committed_total_def batch_weight_def by (rule sum_list_map_filter')

lemma sum_values_insert_fresh:
  "k \<notin> set (st_keys st) \<Longrightarrow>
   sum_list (map w (st_values (st_insert k v st))) = sum_list (map w (st_values st)) + w v"
  by (simp add: st_insert_fresh st_values_def)

lemma sum_values_insert_existing:
  fixes w :: "'v \<Rightarrow> int"
  assumes "distinct (st_keys st)" "st_get st k = Some v0"
  shows "sum_list (map w (st_values (st_insert k v st)))
           = sum_list (map w (st_values st)) - w v0 + w v"
  using assms
proof (induction st)
  case Nil
  then show ?case by (simp add: st_get_def)
next
  case (Cons x st)
  obtain a b where x: "x = (a, b)" by (cases x)
  show ?case
  proof (cases "a = k")
    case True
    with Cons.prems x show ?thesis
      by (simp add: st_insert_def st_values_def st_get_def)
  next
    case False
    with Cons.prems x have "st_get st k = Some v0" "distinct (st_keys st)"
      by (simp_all add: st_get_def st_keys_def)
    from Cons.IH [OF this(2,1)] False x show ?thesis
      by (simp add: st_insert_def st_values_def)
  qed
qed

lemma committed_total_nonneg:
  assumes "\<And>k b. st_get (batches_storage s) k = Some b \<Longrightarrow> 0 \<le> b_total_amount b"
    "distinct (st_keys (batches_storage s))"
  shows "0 \<le> committed_total m s"
proof -
  have "0 \<le> batch_weight m b" if "b \<in> set (st_values (batches_storage s))" for b
  proof -
    from that obtain k where "(k, b) \<in> set (batches_storage s)" by (auto simp: st_values_def)
    with assms(2) have "st_get (batches_storage s) k = Some b" by (simp add: st_in_set_get)
    from assms(1) [OF this] show ?thesis by (simp add: batch_weight_def)
  qed
  then show ?thesis unfolding committed_total_weight by (intro sum_list_nonneg) auto
qed

lemma sum_list_all_zero: "(\<And>x. x \<in> set xs \<Longrightarrow> f x = 0) \<Longrightarrow> sum_list (map f xs) = (0::int)"
  by (induction xs) auto

lemma committed_total_no_batch:
  assumes "\<And>k b. st_get (batches_storage s) k = Some b \<Longrightarrow> b_merchant_id b \<noteq> m"
    "distinct (st_keys (batches_storage s))"
  shows "committed_total m s = 0"
proof -
  have "batch_weight m b = 0" if "b \<in> set (st_values (batches_storage s))" for b
  proof -
    from that obtain k where "(k, b) \<in> set (batches_storage s)" by (auto simp: st_values_def)
    with assms(2) have "st_get (batches_storage s) k = Some b" by (simp add: st_in_set_get)
    from assms(1) [OF this] show ?thesis by (simp add: batch_weight_def)
  qed
  then show ?thesis unfolding committed_total_weight by (rule sum_list_all_zero)
qed

lemma ledger_ok_iff:
  "ledger_ok s \<longleftrightarrow>
     store_ok s \<and>
     (\<forall>k p. st_get (batch_payments_storage s) k = Some p \<longrightarrow>
        0 \<le> bp_amount p \<and>
        (bp_status p = ''pending'' \<longrightarrow> st_get (escrow_pdas_storage s) (bp_merchant_id p) \<noteq> None)) \<and>
     (\<forall>k b. st_get (batches_storage s) k = Some b \<longrightarrow>
        0 \<le> b_total_amount b \<and> st_get (escrow_pdas_storage s) (b_merchant_id b) \<noteq> None) \<and>
     (\<forall>m. get_escrow_balance m s = committed_total m s)"
  (is "?L \<longleftrightarrow> ?ok \<and> ?P \<and> ?B \<and> ?E")
proof (cases "store_ok s")
  case False
  then show ?thesis by (simp add: ledger_ok_def)
next
  case ok: True
  then have d: "distinct (st_keys (batch_payments_storage s))"
    "distinct (st_keys (batches_storage s))" "distinct (st_keys (escrow_pdas_storage s))"
    by (simp_all add: store_ok_def)
  have L: "?L \<longleftrightarrow> ?P \<and> ?B \<and>
      (\<forall>m a. st_get (escrow_pdas_storage s) m = Some a \<longrightarrow> pda_total_balance a = committed_total m s)"
    by (simp add: ledger_ok_def ok list_all_get_iff [OF d(1)] list_all_get_iff [OF d(2)]
        list_all_get_iff [OF d(3)])
  show ?thesis
  proof
    assume l: ?L
    with L have P: ?P and B: ?B
      and A: "\<forall>m a. st_get (escrow_pdas_storage s) m = Some a \<longrightarrow>
                pda_total_balance a = committed_total m s" by blast+
    have "get_escrow_balance m s = committed_total m s" for m
    proof (cases "st_get (escrow_pdas_storage s) m")
      case None
      with B have "\<And>k b. st_get (batches_storage s) k = Some b \<Longrightarrow> b_merchant_id b \<noteq> m"
        by fastforce
      from committed_total_no_batch [OF this d(2)] None show ?thesis
        by (simp add: get_escrow_balance_def)
    next
      case (Some a)
      with A show ?thesis by (simp add: get_escrow_balance_def)
    qed
    with ok P B show "?ok \<and> ?P \<and> ?B \<and> ?E" by blast
  next
    assume r: "?ok \<and> ?P \<and> ?B \<and> ?E"
    then have "\<forall>m a. st_get (escrow_pdas_storage s) m = Some a \<longrightarrow>
                pda_total_balance a = committed_total m s"
      by (auto simp: get_escrow_balance_def split: option.splits)
    with r L show ?L by blast
  qed
qed

lemma committed_total_same:
  "batches_storage s' = batches_storage s \<Longrightarrow> committed_total m s' = committed_total m s"
  by (simp add: committed_total_def)

lemma get_escrow_balance_same:
  "escrow_pdas_storage s' = escrow_pdas_storage s \<Longrightarrow>
   get_escrow_balance m s' = get_escrow_balance m s"
  by (simp add: get_escrow_balance_def)

lemma committed_total_replace:
  assumes "distinct (st_keys (batches_storage s))" "st_get (batches_storage s) k = Some b0"
    "batches_storage s' = st_insert k b (batches_storage s)"
  shows "committed_total m s' = committed_total m s - batch_weight m b0 + batch_weight m b"
  by (simp add: committed_total_weight assms(3) sum_values_insert_existing [OF assms(1,2)])

lemma committed_total_add:
  assumes "k \<notin> set (st_keys (batches_storage s))"
    "batches_storage s' = st_insert k b (batches_storage s)"
  shows "committed_total m s' = committed_total m s + batch_weight m b"
  by (simp add: committed_total_weight assms(2) sum_values_insert_fresh [OF assms(1)])

lemma settle_batch_failure_parts:
  assumes "st_get (batches_storage s) bid = Some b" "b_status b = ''pending''"
    "\<not> emergency_paused s" "\<not> rand_success e"
  shows "batches_storage (snd (settle_batch bid e s))
      = st_insert bid
         (b\<lparr>b_status := ''failed'', b_transaction_hash := None, b_gas_used := None,
            b_gas_cost := None, b_error_message := Some ''Settlement transaction failed''\<rparr>)
         (batches_storage s)"
    and "batch_payments_storage (snd (settle_batch bid e s)) = batch_payments_storage s"
    and "escrow_pdas_storage (snd (settle_batch bid e s)) = escrow_pdas_storage s"
  by (simp_all add: settle_batch_failure [OF assms])

lemma settle_batch_success_parts:
  assumes "st_get (batches_storage s) bid = Some b" "b_status b = ''pending''"
    "\<not> emergency_paused s" "rand_success e"
  shows "batches_storage (snd (settle_batch bid e s))
      = st_insert bid
          (b\<lparr>b_status := ''settled'',
             b_transaction_hash :=
               Some (''settle_tx_'' @ str_int (str_hash e (bid @ str_nat (time e)))),
             b_gas_used := Some (rand_gas e), b_gas_cost := Some (rand_gas e * 25),
             b_error_message := None\<rparr>)
          (batches_storage s)"
    and "batch_payments_storage (snd (settle_batch bid e s))
      = settle_payments bid
          (Some (''settle_tx_'' @ str_int (str_hash e (bid @ str_nat (time e)))))
          (batch_payments_storage s)"
    and "escrow_pdas_storage (snd (settle_batch bid e s))
      = (case st_get (escrow_pdas_storage s) (b_merchant_id b) of
           None \<Rightarrow> escrow_pdas_storage s
         | Some pda \<Rightarrow>
             st_insert (b_merchant_id b)
               (pda\<lparr>pda_total_balance := max 0 (pda_total_balance pda - b_total_amount b),
                    pda_pending_batches := max 0 (pda_pending_batches pda - 1),
                    pda_last_settlement := b_settled_at b\<rparr>)
               (escrow_pdas_storage s))"
  by (simp_all add: settle_batch_success [OF assms] Let_def split: option.splits)

lemma ledger_ok_settle_batch:
  assumes "ledger_ok s"
  shows "ledger_ok (snd (settle_batch bid e s))"
proof (cases rule: settle_batch_cases [of bid e s])
  case rejected
  with assms show ?thesis by simp
next
  case (failed b)
  let ?s' = "snd (settle_batch bid e s)"
  note parts = settle_batch_failure_parts [OF failed]
  from assms have inv: "store_ok s"
    "\<And>k p. st_get (batch_payments_storage s) k = Some p \<Longrightarrow>
        0 \<le> bp_amount p \<and>
        (bp_status p = ''pending'' \<longrightarrow> st_get (escrow_pdas_storage s) (bp_merchant_id p) \<noteq> None)"
    "\<And>k b. st_get (batches_storage s) k = Some b \<Longrightarrow>
        0 \<le> b_total_amount b \<and> st_get (escrow_pdas_storage s) (b_merchant_id b) \<noteq> None"
    "\<And>m. get_escrow_balance m s = committed_total m s"
    by (simp_all add: ledger_ok_iff)
  from inv(1) have d: "distinct (st_keys (batches_storage s))" by (simp add: store_ok_def)
  have ok': "store_ok ?s'" by (rule store_ok_settle_batch [OF inv(1)])
  have B: "0 \<le> b_total_amount x \<and> st_get (escrow_pdas_storage ?s') (b_merchant_id x) \<noteq> None"
    if "st_get (batches_storage ?s') k = Some x" for k x
    using that inv(3) [of k x] inv(3) [OF failed(1)]
    by (auto simp: parts st_get_insert split: if_splits)
  have E: "get_escrow_balance m ?s' = committed_total m ?s'" for m
    using inv(4) [of m] failed(2)
    by (simp add: get_escrow_balance_same [OF parts(3)]
        committed_total_replace [OF d failed(1) parts(1)] batch_weight_def)
  from ok' inv(2) B E show ?thesis
    by (simp add: ledger_ok_iff [of ?s'] parts(2,3))
next
  case (succeeded b)
  let ?s' = "snd (settle_batch bid e s)"
  note parts = settle_batch_success_parts [OF succeeded]
  from assms have inv: "store_ok s"
    "\<And>k p. st_get (batch_payments_storage s) k = Some p \<Longrightarrow>
        0 \<le> bp_amount p \<and>
        (bp_status p = ''pending'' \<longrightarrow> st_get (escrow_pdas_storage s) (bp_merchant_id p) \<noteq> None)"
    "\<And>k b. st_get (batches_storage s) k = Some b \<Longrightarrow>
        0 \<le> b_total_amount b \<and> st_get (escrow_pdas_storage s) (b_merchant_id b) \<noteq> None"
    "\<And>m. get_escrow_balance m s = committed_total m s"
    by (simp_all add: ledger_ok_iff)
  from inv(1) have d: "distinct (st_keys (batches_storage s))" by (simp add: store_ok_def)
  have ok': "store_ok ?s'" by (rule store_ok_settle_batch [OF inv(1)])
  from inv(3) [OF succeeded(1)] obtain pda where
    pda: "st_get (escrow_pdas_storage s) (b_merchant_id b) = Some pda" and nn: "0 \<le> b_total_amount b"
    by auto
  have esc: "escrow_pdas_storage ?s'
      = st_insert (b_merchant_id b)
               (pda\<lparr>pda_total_balance := max 0 (pda_total_balance pda - b_total_amount b),
                    pda_pending_batches := max 0 (pda_pending_batches pda - 1),
                    pda_last_settlement := b_settled_at b\<rparr>)
               (escrow_pdas_storage s)"
    by (simp add: parts(3) pda)
  have keep: "st_get (escrow_pdas_storage ?s') m \<noteq> None"
    if "st_get (escrow_pdas_storage s) m \<noteq> None" for m
    using that by (simp add: esc st_get_insert)
  have P: "0 \<le> bp_amount p \<and>
        (bp_status p = ''pending'' \<longrightarrow> st_get (escrow_pdas_storage ?s') (bp_merchant_id p) \<noteq> None)"
    if "st_get (batch_payments_storage ?s') k = Some p" for k p
  proof -
    from that obtain p0 where p0: "st_get (batch_payments_storage s) k = Some p0"
      "p = (if bp_batch_id p0 = Some bid then as_settled
              (Some (''settle_tx_'' @ str_int (str_hash e (bid @ str_nat (time e))))) p0 else p0)"
      by (auto simp: parts(2) settle_payments_get)
    from inv(2) [OF p0(1)] keep [of "bp_merchant_id p0"] show ?thesis
      by (auto simp: p0(2) as_settled_def)
  qed
  have B: "0 \<le> b_total_amount x \<and> st_get (escrow_pdas_storage ?s') (b_merchant_id x) \<noteq> None"
    if "st_get (batches_storage ?s') k = Some x" for k x
    using that inv(3) [of k x] inv(3) [OF succeeded(1)] keep
    by (auto simp: parts(1) st_get_insert split: if_splits)
  have ct: "committed_total m ?s'
      = committed_total m s - (if b_merchant_id b = m then b_total_amount b else 0)" for m
    using succeeded(2)
    by (simp add: committed_total_replace [OF d succeeded(1) parts(1)] batch_weight_def)
  have nn': "0 \<le> committed_total m ?s'" for m
    by (rule committed_total_nonneg) (use B ok' in \<open>auto simp: store_ok_def\<close>)
  have E: "get_escrow_balance m ?s' = committed_total m ?s'" for m
  proof (cases "m = b_merchant_id b")
    case True
    have "get_escrow_balance m ?s' = max 0 (pda_total_balance pda - b_total_amount b)"
      by (simp add: get_escrow_balance_def esc st_get_insert True)
    also have "pda_total_balance pda = committed_total m s"
      using inv(4) [of m] pda True by (simp add: get_escrow_balance_def)
    also have "max 0 (committed_total m s - b_total_amount b) = committed_total m ?s'"
      using nn' [of m] by (simp add: ct True)
    finally show ?thesis .
  next
    case False
    then have "get_escrow_balance m ?s' = get_escrow_balance m s"
      by (simp add: get_escrow_balance_def esc st_get_insert)
    with inv(4) [of m] False show ?thesis by (simp add: ct)
  qed
  from ok' P B E show ?thesis
    by (simp add: ledger_ok_iff [of ?s'])
qed

lemma ledger_ok_create_batch_records:
  assumes "ledger_ok s" "pend = pending_payments_of m (batch_payments_storage s)" "pend \<noteq> []"
    "new_batch_id m e \<notin> set (st_keys (batches_storage s))"
  shows "ledger_ok (create_batch_records m pend e s)"
proof -
  let ?s' = "create_batch_records m pend e s"
  let ?bid = "new_batch_id m e"
  let ?total = "sum_list (map bp_amount pend)"
  from assms(1) have inv: "store_ok s"
    "\<And>k p. st_get (batch_payments_storage s) k = Some p \<Longrightarrow>
        0 \<le> bp_amount p \<and>
        (bp_status p = ''pending'' \<longrightarrow> st_get (escrow_pdas_storage s) (bp_merchant_id p) \<noteq> None)"
    "\<And>k b. st_get (batches_storage s) k = Some b \<Longrightarrow>
        0 \<le> b_total_amount b \<and> st_get (escrow_pdas_storage s) (b_merchant_id b) \<noteq> None"
    "\<And>m. get_escrow_balance m s = committed_total m s"
    by (simp_all add: ledger_ok_iff)
  from inv(1) have po: "list_all payment_ok (batch_payments_storage s)"
    by (simp add: store_ok_def)
  have ok': "store_ok ?s'" by (rule store_ok_create_batch_records [OF inv(1) assms(2)])
  have pend_nn: "0 \<le> bp_amount p" if "p \<in> set pend" for p
  proof -
    from that obtain k where "st_get (batch_payments_storage s) k = Some p"
      by (auto simp: assms(2) pending_payments_of_mem)
    from inv(2) [OF this] show ?thesis by simp
  qed
  then have total_nn: "0 \<le> ?total" by (intro sum_list_nonneg) auto
  from assms(3) obtain q where q: "q \<in> set pend" by (cases pend) auto
  then obtain kq where kq: "st_get (batch_payments_storage s) kq = Some q"
    and qm: "bp_merchant_id q = m" "bp_status q = ''pending''"
    by (auto simp: assms(2) pending_payments_of_mem)
  from inv(2) [OF kq] qm obtain pda where pda: "st_get (escrow_pdas_storage s) m = Some pda"
    by auto
  have esc: "escrow_pdas_storage ?s'
      = st_insert m
          (pda\<lparr>pda_total_balance := pda_total_balance pda + ?total,
               pda_pending_batches := pda_pending_batches pda + 1\<rparr>)
          (escrow_pdas_storage s)"
    by (simp add: create_batch_records_escrow pda)
  have keep: "st_get (escrow_pdas_storage ?s') m' \<noteq> None"
    if "st_get (escrow_pdas_storage s) m' \<noteq> None" for m'
    using that by (simp add: esc st_get_insert)
  have P: "0 \<le> bp_amount p \<and>
        (bp_status p = ''pending'' \<longrightarrow> st_get (escrow_pdas_storage ?s') (bp_merchant_id p) \<noteq> None)"
    if "st_get (batch_payments_storage ?s') k = Some p" for k p
  proof -
    from that obtain p0 where p0: "st_get (batch_payments_storage s) k = Some p0"
      "p = (if bp_merchant_id p0 = m \<and> bp_status p0 = ''pending''
            then as_batched ?bid p0 else p0)"
      by (auto simp: create_batch_records_payments assms(2) mark_batched_pending_get [OF po])
    from inv(2) [OF p0(1)] keep [of "bp_merchant_id p0"] show ?thesis
      by (auto simp: p0(2) as_batched_def)
  qed
  have B: "0 \<le> b_total_amount x \<and> st_get (escrow_pdas_storage ?s') (b_merchant_id x) \<noteq> None"
    if "st_get (batches_storage ?s') k = Some x" for k x
    using that inv(3) [of k x] keep total_nn pda
    by (auto simp: create_batch_records_batches st_get_insert split: if_splits)
  have ct: "committed_total m' ?s' = committed_total m' s + (if m' = m then ?total else 0)" for m'
    by (simp add: committed_total_add [OF assms(4) create_batch_records_batches]
        batch_weight_def)
  have E: "get_escrow_balance m' ?s' = committed_total m' ?s'" for m'
    using inv(4) [of m'] pda
    by (auto simp: get_escrow_balance_def esc st_get_insert ct)
  from ok' P B E show ?thesis
    by (simp add: ledger_ok_iff [of ?s'])
qed

lemma create_batch_records_keys:
  "set (st_keys (batches_storage (create_batch_records m pend e s)))
     = insert (new_batch_id m e) (set (st_keys (batches_storage s)))"
  by (simp add: create_batch_records_batches st_keys_insert_set)

lemma ledger_ok_create_batch_for_merchant:
  assumes "ledger_ok s" "new_batch_id m e \<notin> set (st_keys (batches_storage s))"
  shows "ledger_ok (snd (create_batch_for_merchant m e s))"
proof (cases "st_get (merchant_configs_storage s) m")
  case None
  with assms(1) show ?thesis by (simp add: create_batch_for_merchant_def)
next
  case (Some c)
  show ?thesis
  proof (cases "pending_payments_of m (batch_payments_storage s) = []")
    case True
    with Some assms(1) show ?thesis by (simp add: create_batch_for_merchant_def)
  next
    case False
    from ledger_ok_create_batch_records [OF assms(1) refl False assms(2)] Some False
    show ?thesis
      by (simp add: create_batch_for_merchant_def Let_def ledger_ok_settle_batch)
  qed
qed

lemma ledger_ok_update_merchant_config:
  "ledger_ok s \<Longrightarrow> ledger_ok (snd (update_merchant_config m cd e s))"
proof -
  assume l: "ledger_ok s"
  then have ok: "store_ok s" by (simp add: ledger_ok_iff)
  have same: "batch_payments_storage (snd (update_merchant_config m cd e s)) = batch_payments_storage s"
    "batches_storage (snd (update_merchant_config m cd e s)) = batches_storage s"
    "escrow_pdas_storage (snd (update_merchant_config m cd e s)) = escrow_pdas_storage s"
    by (simp_all add: update_merchant_config_def Let_def split: option.splits)
  from l store_ok_update_merchant_config [OF ok, of m cd e] show ?thesis
    by (simp add: ledger_ok_def same committed_total_def)
qed

lemma process_payment_unfold:
  "process_payment pd e s =
     (if should_use_escrow (pd_api_key pd)
      then (''escrow_batched_'' @ new_payment_id e,
            if should_create_batch (pd_merchant_id pd) (with_escrow_payment pd e s)
            then snd (create_batch_for_merchant (pd_merchant_id pd) e (with_escrow_payment pd e s))
            else with_escrow_payment pd e s)
      else (''direct_settled_'' @ new_payment_id e, with_direct_payment pd e s))"
  by (simp add: process_payment_def Let_def with_escrow_payment_def with_direct_payment_def
      with_default_config_def)

lemma with_default_config_parts:
  "batch_payments_storage (with_default_config pd e s) = batch_payments_storage s"
  "batches_storage (with_default_config pd e s) = batches_storage s"
  "escrow_pdas_storage (with_default_config pd e s) = escrow_pdas_storage s"
  "settle_config_storage (with_default_config pd e s) = settle_config_storage s"
  by (simp_all add: with_default_config_def split: option.splits)

lemma store_ok_with_default_config: "store_ok s \<Longrightarrow> store_ok (with_default_config pd e s)"
  by (simp add: with_default_config_def store_ok_def st_keys_insert_distinct st_insert_list_all
      config_ok_def split: option.splits)

lemma ledger_ok_with_default_config:
  assumes "ledger_ok s"
  shows "ledger_ok (with_default_config pd e s)"
  using assms store_ok_with_default_config [of s pd e]
  by (simp add: ledger_ok_def with_default_config_parts committed_total_def)

lemma with_escrow_payment_parts:
  "batches_storage (with_escrow_payment pd e s) = batches_storage s"
  "batch_payments_storage (with_escrow_payment pd e s)
     = st_insert (new_payment_id e)
         \<lparr>bp_payment_id = new_payment_id e, bp_merchant_id = pd_merchant_id pd,
          bp_user_wallet = pd_user_wallet pd, bp_amount = pd_amount pd,
          bp_currency = ''USDC'', bp_timestamp = str_nat (time e), bp_status = ''pending'',
          bp_batch_id = None, bp_transaction_hash = None, bp_error_message = None\<rparr>
         (batch_payments_storage s)"
  "settle_config_storage (with_escrow_payment pd e s) = settle_config_storage s"
  by (simp_all add: with_escrow_payment_def Let_def create_or_get_escrow_pda_def
      with_default_config_parts split: option.splits)

lemma with_escrow_payment_escrow:
  "st_get (escrow_pdas_storage (with_escrow_payment pd e s)) m
     = (if m = pd_merchant_id pd \<and> st_get (escrow_pdas_storage s) m = None
        then Some \<lparr>pda_address = ''escrow_pda_'' @ m @ ''_'' @ str_nat (time e),
                   pda_merchant_id = m, pda_total_balance = 0, pda_pending_batches = 0,
                   pda_created_at = str_nat (time e), pda_last_settlement = None,
                   pda_is_active = True\<rparr>
        else st_get (escrow_pdas_storage s) m)"
  by (auto simp: with_escrow_payment_def Let_def create_or_get_escrow_pda_def
      with_default_config_parts st_get_insert split: option.splits)

lemma with_escrow_payment_balance:
  "get_escrow_balance m (with_escrow_payment pd e s) = get_escrow_balance m s"
  by (auto simp: get_escrow_balance_def with_escrow_payment_escrow)

lemma with_direct_payment_parts:
  "batches_storage (with_direct_payment pd e s) = batches_storage s"
  "escrow_pdas_storage (with_direct_payment pd e s) = escrow_pdas_storage s"
  "settle_config_storage (with_direct_payment pd e s) = settle_config_storage s"
  by (simp_all add: with_direct_payment_def with_default_config_parts)

lemma store_ok_with_escrow_payment: "store_ok s \<Longrightarrow> store_ok (with_escrow_payment pd e s)"
  using store_ok_with_default_config [of s pd e]
  by (simp add: with_escrow_payment_def Let_def create_or_get_escrow_pda_def store_ok_def
      st_keys_insert_distinct st_insert_list_all payment_ok_def split: option.splits)

lemma store_ok_with_direct_payment: "store_ok s \<Longrightarrow> store_ok (with_direct_payment pd e s)"
  using store_ok_with_default_config [of s pd e]
  by (simp add: with_direct_payment_def store_ok_def st_keys_insert_distinct st_insert_list_all
      payment_ok_def)

lemma ledger_ok_with_escrow_payment:
  assumes "ledger_ok s" "0 \<le> pd_amount pd"
  shows "ledger_ok (with_escrow_payment pd e s)"
proof -
  let ?s' = "with_escrow_payment pd e s"
  from assms(1) have inv: "store_ok s"
    "\<And>k p. st_get (batch_payments_storage s) k = Some p \<Longrightarrow>
        0 \<le> bp_amount p \<and>
        (bp_status p = ''pending'' \<longrightarrow> st_get (escrow_pdas_storage s) (bp_merchant_id p) \<noteq> None)"
    "\<And>k b. st_get (batches_storage s) k = Some b \<Longrightarrow>
        0 \<le> b_total_amount b \<and> st_get (escrow_pdas_storage s) (b_merchant_id b) \<noteq> None"
    "\<And>m. get_escrow_balance m s = committed_total m s"
    by (simp_all add: ledger_ok_iff)
  have ok': "store_ok ?s'" by (rule store_ok_with_escrow_payment [OF inv(1)])
  have P: "0 \<le> bp_amount p \<and>
        (bp_status p = ''pending'' \<longrightarrow> st_get (escrow_pdas_storage ?s') (bp_merchant_id p) \<noteq> None)"
    if "st_get (batch_payments_storage ?s') k = Some p" for k p
    using that inv(2) [of k p] assms(2)
    by (auto simp: with_escrow_payment_parts st_get_insert with_escrow_payment_escrow
        split: if_splits)
  have B: "0 \<le> b_total_amount x \<and> st_get (escrow_pdas_storage ?s') (b_merchant_id x) \<noteq> None"
    if "st_get (batches_storage ?s') k = Some x" for k x
    using that inv(3) [of k x]
    by (auto simp: with_escrow_payment_parts with_escrow_payment_escrow)
  have E: "get_escrow_balance m ?s' = committed_total m ?s'" for m
    using inv(4) [of m]
    by (simp add: with_escrow_payment_balance
        committed_total_same [OF with_escrow_payment_parts(1)])
  from ok' P B E show ?thesis by (simp add: ledger_ok_iff [of ?s'])
qed

lemma ledger_ok_with_direct_payment:
  assumes "ledger_ok s" "0 \<le> pd_amount pd"
  shows "ledger_ok (with_direct_payment pd e s)"
proof -
  let ?s' = "with_direct_payment pd e s"
  from assms(1) have inv: "store_ok s"
    "\<And>k p. st_get (batch_payments_storage s) k = Some p \<Longrightarrow>
        0 \<le> bp_amount p \<and>
        (bp_status p = ''pending'' \<longrightarrow> st_get (escrow_pdas_storage s) (bp_merchant_id p) \<noteq> None)"
    "\<And>k b. st_get (batches_storage s) k = Some b \<Longrightarrow>
        0 \<le> b_total_amount b \<and> st_get (escrow_pdas_storage s) (b_merchant_id b) \<noteq> None"
    "\<And>m. get_escrow_balance m s = committed_total m s"
    by (simp_all add: ledger_ok_iff)
  have ok': "store_ok ?s'" by (rule store_ok_with_direct_payment [OF inv(1)])
  have P: "0 \<le> bp_amount p \<and>
        (bp_status p = ''pending'' \<longrightarrow> st_get (escrow_pdas_storage ?s') (bp_merchant_id p) \<noteq> None)"
    if "st_get (batch_payments_storage ?s') k = Some p" for k p
    using that inv(2) [of k p] assms(2)
    by (auto simp: with_direct_payment_def with_default_config_parts st_get_insert
        split: if_splits)
  have B: "0 \<le> b_total_amount x \<and> st_get (escrow_pdas_storage ?s') (b_merchant_id x) \<noteq> None"
    if "st_get (batches_storage ?s') k = Some x" for k x
    using that inv(3) [of k x] by (auto simp: with_direct_payment_parts)
  have E: "get_escrow_balance m ?s' = committed_total m ?s'" for m
    using inv(4) [of m]
    by (simp add: get_escrow_balance_same [OF with_direct_payment_parts(2)]
        committed_total_same [OF with_direct_payment_parts(1)])
  from ok' P B E show ?thesis by (simp add: ledger_ok_iff [of ?s'])
qed

lemma ledger_ok_process_payment:
  assumes "ledger_ok s" "0 \<le> pd_amount pd"
    "new_batch_id (pd_merchant_id pd) e \<notin> set (st_keys (batches_storage s))"
  shows "ledger_ok (snd (process_payment pd e s))"
  using ledger_ok_with_escrow_payment [OF assms(1,2), of e]
    ledger_ok_with_direct_payment [OF assms(1,2), of e] assms(3)
  by (simp add: process_payment_unfold ledger_ok_create_batch_for_merchant
      with_escrow_payment_parts)

lemma ledger_ok_init: "ledger_ok canister_init"
  by (simp add: ledger_ok_def store_ok_init) (simp add: canister_init_def)

lemma ledger_ok_run_call: "ledger_ok s \<Longrightarrow> call_fresh c s \<Longrightarrow> ledger_ok (run_call c s)"
  by (cases c) (simp_all add: ledger_ok_process_payment ledger_ok_create_batch_for_merchant
      ledger_ok_settle_batch ledger_ok_update_merchant_config)

lemma ledger_ok_run_calls: "ledger_ok s \<Longrightarrow> calls_fresh cs s \<Longrightarrow> ledger_ok (run_calls cs s)"
  by (induction cs arbitrary: s) (simp_all add: ledger_ok_run_call)

lemma balance_settle_batch:
  "get_escrow_balance m (snd (settle_batch bid e s)) = get_escrow_balance m s \<or>
   fst (settle_batch bid e s) \<and>
   (\<exists>b. st_get (batches_storage s) bid = Some b \<and> b_status b = ''pending'' \<and>
        b_merchant_id b = m \<and>
        get_escrow_balance m (snd (settle_batch bid e s))
          = max 0 (get_escrow_balance m s - b_total_amount b))"
proof (cases rule: settle_batch_cases [of bid e s])
  case rejected
  then show ?thesis by simp
next
  case (failed b)
  then show ?thesis
    by (simp add: get_escrow_balance_same [OF settle_batch_failure_parts(3) [OF failed]])
next
  case (succeeded b)
  show ?thesis
  proof (cases "m = b_merchant_id b \<and> st_get (escrow_pdas_storage s) m \<noteq> None")
    case True
    have f: "fst (settle_batch bid e s)" by (simp add: settle_batch_success [OF succeeded])
    from True have "get_escrow_balance m (snd (settle_batch bid e s))
        = max 0 (get_escrow_balance m s - b_total_amount b)"
      by (auto simp: get_escrow_balance_def settle_batch_success_parts(3) [OF succeeded]
          st_get_insert)
    with f succeeded True show ?thesis by blast
  next
    case False
    then have "get_escrow_balance m (snd (settle_batch bid e s)) = get_escrow_balance m s"
      by (auto simp: get_escrow_balance_def settle_batch_success_parts(3) [OF succeeded]
          st_get_insert split: option.splits)
    then show ?thesis by simp
  qed
qed

lemma balance_create_batch_records:
  "get_escrow_balance m (create_batch_records m' pend e s)
     = get_escrow_balance m s
       + (if m = m' \<and> st_get (escrow_pdas_storage s) m' \<noteq> None
          then sum_list (map bp_amount pend) else 0)"
  by (auto simp: get_escrow_balance_def create_batch_records_escrow st_get_insert
      split: option.splits)

lemma balance_update_merchant_config:
  "get_escrow_balance m (snd (update_merchant_config m' cd e s)) = get_escrow_balance m s"
  by (simp add: get_escrow_balance_def update_merchant_config_def Let_def split: option.splits)

lemma balance_with_direct_payment:
  "get_escrow_balance m (with_direct_payment pd e s) = get_escrow_balance m s"
  by (simp add: get_escrow_balance_same [OF with_direct_payment_parts(2)])

lemma create_batch_for_merchant_steps:
  "snd (create_batch_for_merchant m e s) = s \<or>
   snd (create_batch_for_merchant m e s)
     = create_batch_records m (pending_payments_of m (batch_payments_storage s)) e s \<or>
   snd (create_batch_for_merchant m e s)
     = snd (settle_batch (new_batch_id m e) e
         (create_batch_records m (pending_payments_of m (batch_payments_storage s)) e s))"
  by (simp add: create_batch_for_merchant_def Let_def split: option.splits)

lemma process_payment_steps:
  "snd (process_payment pd e s) = with_direct_payment pd e s \<or>
   snd (process_payment pd e s) = with_escrow_payment pd e s \<or>
   snd (process_payment pd e s)
     = snd (create_batch_for_merchant (pd_merchant_id pd) e (with_escrow_payment pd e s))"
  by (simp add: process_payment_unfold)

section \<open>Calls at increasing times use fresh batch ids\<close>

text \<open>
  A batch id ends in an underscore and the decimal time of the call that created the
  batch, so the time can be read back from the id. When every call comes at a later
  time than the one before, no call can produce a batch id that is already stored.
\<close>

lemma digit_char_not_underscore: "d < 10 \<Longrightarrow> digit_char d \<noteq> CHR ''_''"
proof -
  assume "d < 10"
  then have "digit_char d \<in> set ''0123456789''"
    unfolding digit_char_def by (intro nth_mem) simp
  then show ?thesis by auto
qed

lemma str_nat_no_underscore: "CHR ''_'' \<notin> set (str_nat n)"
proof (induction n rule: str_nat.induct)
  case (1 n)
  show ?case
  proof (cases "n < 10")
    case True
    then show ?thesis
      using digit_char_not_underscore [of n] by (subst str_nat.simps) auto
  next
    case False
    with "1.IH" digit_char_not_underscore [of "n mod 10"] show ?thesis
      by (subst str_nat.simps) auto
  qed
qed

lemma split_at_last_underscore:
  assumes "CHR ''_'' \<notin> set d" "CHR ''_'' \<notin> set d'"
    "m @ CHR ''_'' # d = m' @ CHR ''_'' # d'"
  shows "d = d'"
proof -
  have tw: "takeWhile (\<lambda>c. c \<noteq> CHR ''_'') (rev x @ CHR ''_'' # ys) = rev x"
    if "CHR ''_'' \<notin> set x" for x ys
    using that by (subst takeWhile_append2) auto
  from assms(3) have "rev (m @ CHR ''_'' # d) = rev (m' @ CHR ''_'' # d')" by simp
  then have "rev d @ CHR ''_'' # rev m = rev d' @ CHR ''_'' # rev m'" by simp
  then have "takeWhile (\<lambda>c. c \<noteq> CHR ''_'') (rev d @ CHR ''_'' # rev m)
      = takeWhile (\<lambda>c. c \<noteq> CHR ''_'') (rev d' @ CHR ''_'' # rev m')" by simp
  with tw [OF assms(1)] tw [OF assms(2)] have "rev d = rev d'" by simp
  then show ?thesis by simp
qed

lemma new_batch_id_time:
  "new_batch_id m e = new_batch_id m' e' \<Longrightarrow> time e = time e'"
proof -
  assume "new_batch_id m e = new_batch_id m' e'"
  then have "m @ CHR ''_'' # str_nat (time e) = m' @ CHR ''_'' # str_nat (time e')"
    by (simp add: new_batch_id_def)
  from split_at_last_underscore [OF str_nat_no_underscore str_nat_no_underscore this]
  show ?thesis by (rule str_nat_inj)
qed

lemma settle_batch_batch_keys:
  "set (st_keys (batches_storage (snd (settle_batch bid e s)))) = set (st_keys (batches_storage s))"
proof (cases rule: settle_batch_cases [of bid e s])
  case rejected
  then show ?thesis by simp
next
  case (failed b)
  then have "bid \<in> set (st_keys (batches_storage s))"
    using st_get_None_iff [of "batches_storage s" bid] by auto
  then show ?thesis
    by (auto simp: settle_batch_failure_parts(1) [OF failed] st_keys_insert_set)
next
  case (succeeded b)
  then have "bid \<in> set (st_keys (batches_storage s))"
    using st_get_None_iff [of "batches_storage s" bid] by auto
  then show ?thesis
    by (auto simp: settle_batch_success_parts(1) [OF succeeded] st_keys_insert_set)
qed

lemma create_batch_for_merchant_batch_keys:
  "set (st_keys (batches_storage (snd (create_batch_for_merchant m e s))))
     \<subseteq> insert (new_batch_id m e) (set (st_keys (batches_storage s)))"
  using create_batch_for_merchant_steps [of m e s]
  by (auto simp: settle_batch_batch_keys create_batch_records_keys)

lemma run_call_batch_keys:
  "k \<in> set (st_keys (batches_storage (run_call c s))) \<Longrightarrow>
   k \<in> set (st_keys (batches_storage s)) \<or> (\<exists>m e. k = new_batch_id m e \<and> time e = call_time c)"
proof (cases c)
  case (ProcessPayment pd e)
  assume k: "k \<in> set (st_keys (batches_storage (run_call c s)))"
  have "set (st_keys (batches_storage (snd (process_payment pd e s))))
      \<subseteq> insert (new_batch_id (pd_merchant_id pd) e) (set (st_keys (batches_storage s)))"
    using process_payment_steps [of pd e s]
      create_batch_for_merchant_batch_keys [of "pd_merchant_id pd" e "with_escrow_payment pd e s"]
    by (auto simp: with_direct_payment_parts with_escrow_payment_parts)
  with k ProcessPayment have "k = new_batch_id (pd_merchant_id pd) e \<or>
      k \<in> set (st_keys (batches_storage s))" by auto
  with ProcessPayment show ?thesis by auto
next
  case (CreateBatch m e)
  assume "k \<in> set (st_keys (batches_storage (run_call c s)))"
  with CreateBatch create_batch_for_merchant_batch_keys [of m e s] show ?thesis by auto
next
  case (SettleBatch bid e)
  assume "k \<in> set (st_keys (batches_storage (run_call c s)))"
  with SettleBatch show ?thesis by (simp add: settle_batch_batch_keys)
next
  case (UpdateConfig m cd e)
  assume "k \<in> set (st_keys (batches_storage (run_call c s)))"
  with UpdateConfig show ?thesis
    by (simp add: update_merchant_config_def Let_def split: option.splits)
qed

lemma call_fresh_after:
  assumes "\<And>k. k \<in> set (st_keys (batches_storage s)) \<Longrightarrow> \<exists>m e. k = new_batch_id m e \<and> time e \<le> t"
    "t < call_time c" "call_amount_ok c"
  shows "call_fresh c s"
proof -
  have "new_batch_id m e \<notin> set (st_keys (batches_storage s))" if "time e = call_time c" for m e
  proof
    assume "new_batch_id m e \<in> set (st_keys (batches_storage s))"
    from assms(1) [OF this] obtain m' e' where "new_batch_id m e = new_batch_id m' e'"
      "time e' \<le> t" by blast
    with new_batch_id_time [of m e m' e'] that assms(2) show False by simp
  qed
  with assms(3) show ?thesis by (cases c) simp_all
qed

lemma calls_timed_fresh_aux:
  assumes "\<And>k. k \<in> set (st_keys (batches_storage s)) \<Longrightarrow> \<exists>m e. k = new_batch_id m e \<and> time e \<le> t"
    "calls_timed t cs"
  shows "calls_fresh cs s"
  using assms
proof (induction cs arbitrary: s t)
  case Nil
  then show ?case by simp
next
  case (Cons c cs)
  from Cons.prems(2) have c: "t < call_time c" "call_amount_ok c" "calls_timed (call_time c) cs"
    by simp_all
  have fresh: "call_fresh c s" by (rule call_fresh_after [OF Cons.prems(1) c(1,2)])
  have "\<exists>m e. k = new_batch_id m e \<and> time e \<le> call_time c"
    if "k \<in> set (st_keys (batches_storage (run_call c s)))" for k
  proof -
    from run_call_batch_keys [OF that] show ?thesis
    proof
      assume "k \<in> set (st_keys (batches_storage s))"
      from Cons.prems(1) [OF this] obtain m e where "k = new_batch_id m e" "time e \<le> t"
        by blast
      with c(1) have "k = new_batch_id m e \<and> time e \<le> call_time c" by simp
      then show ?thesis by blast
    next
      assume "\<exists>m e. k = new_batch_id m e \<and> time e = call_time c"
      then obtain m e where "k = new_batch_id m e" "time e = call_time c" by blast
      then have "k = new_batch_id m e \<and> time e \<le> call_time c" by simp
      then show ?thesis by blast
    qed
  qed
  from Cons.IH [OF this c(3)] fresh show ?case by simp
qed

lemma calls_timed_fresh: "calls_timed t cs \<Longrightarrow> calls_fresh cs canister_init"
  by (rule calls_timed_fresh_aux [where t = t]) (simp_all add: canister_init_def st_keys_def)

lemma calls_timed_ledger_ok: "calls_timed t cs \<Longrightarrow> ledger_ok (run_calls cs canister_init)"
  by (rule ledger_ok_run_calls [OF ledger_ok_init calls_timed_fresh])

section \<open>Settlement\<close>

text \<open>
  Claim C1. \<^const>\<open>settle_batch\<close> returns false and leaves the whole state as it is when the
  batch does not exist, when its status is not \<^verbatim>\<open>"pending"\<close>, and when the settlement
  configuration has the emergency pause set. A second call on the same batch id always
  returns false and leaves the state exactly as the first call left it, so at most one
  of two calls succeeds.
\<close>

theorem settle_batch_guards_and_idempotence:
  "(st_get (batches_storage s) bid = None \<or>
    (\<exists>b. st_get (batches_storage s) bid = Some b \<and> b_status b \<noteq> ''pending'') \<or>
    emergency_paused s
      \<longrightarrow> settle_batch bid e s = (False, s)) \<and>
   settle_batch bid e' (snd (settle_batch bid e s)) = (False, snd (settle_batch bid e s))"
  using settle_batch_rejected [where s = s and bid = bid and e = e]
    settle_batch_rejected [OF settle_batch_leaves_non_pending, where e = e']
  by blast

theorem settle_batch_guards_and_idempotence_witness:
  "fst (settle_batch ''batch_m1_4'' (ex_env 5 0 True) ex_pending_batch) \<and>
   settle_batch ''batch_m1_4'' (ex_env 6 0 True)
       (snd (settle_batch ''batch_m1_4'' (ex_env 5 0 True) ex_pending_batch))
     = (False, snd (settle_batch ''batch_m1_4'' (ex_env 5 0 True) ex_pending_batch)) \<and>
   settle_batch ''batch_m9_9'' (ex_env 5 0 True) ex_pending_batch = (False, ex_pending_batch)"
proof -
  have a: "fst (settle_batch ''batch_m1_4'' (ex_env 5 0 True) ex_pending_batch)"
    by (simp add: settle_batch_success [OF ex_pending_batch_get] ex_env_def)
  have n: "st_get (batches_storage ex_pending_batch) ''batch_m9_9'' = None"
    by (simp add: ex_pending_batch_def st_get_def)
  show ?thesis
    using a n
      settle_batch_guards_and_idempotence
        [where s = ex_pending_batch and bid = "''batch_m1_4''" and e = "ex_env 5 0 True"
           and e' = "ex_env 6 0 True"]
      settle_batch_guards_and_idempotence
        [where s = ex_pending_batch and bid = "''batch_m9_9''" and e = "ex_env 5 0 True"
           and e' = "ex_env 6 0 True"]
    by simp
qed

section \<open>The escrow balance\<close>

text \<open>
  Claim C2, as stated, fails: a failed settlement leaves the balance as it is while the
  batch leaves the pending and processing statuses. After one payment at the maximum
  amount whose settlement fails, the batch is \<^verbatim>\<open>"failed"\<close>, the balance of the merchant is
  the batch total, and the total of the merchant's pending and processing batches is 0.
\<close>

theorem failed_batch_keeps_balance:
  "get_escrow_balance ''m1'' (run_calls ex_failed_calls canister_init) = 10000000000 \<and>
   open_total ''m1'' (run_calls ex_failed_calls canister_init) = 0 \<and>
   map_option b_status
     (st_get (batches_storage (run_calls ex_failed_calls canister_init)) ''batch_m1_1'')
     = Some ''failed''"
  by (simp add: ex_failed_calls_def ex_defs model_defs str_nat.simps get_escrow_balance_def
      open_total_def)

text \<open>
  Claim C2, amended. Take any list of calls with amounts that are not negative in which
  no call would give a new batch an id that is already stored; calls at strictly
  increasing times are such a list (lemma \<open>calls_timed_fresh\<close>). In the state it leads
  to, the balance of every merchant (0 without an escrow PDA) is not negative and is the
  sum of the totals of the merchant's batches that are pending, processing or failed.
  From there the balance changes in two places only: \<^const>\<open>settle_batch\<close> either keeps it or,
  when it succeeds on a pending batch of the merchant, replaces it by the balance minus
  the batch total, floored at 0; the batch-creation step adds the collected total to
  the balance of the batch's merchant. Storing a payment and updating a configuration
  keep every balance, and \<^const>\<open>process_payment\<close> and \<^const>\<open>create_batch_for_merchant\<close> are
  made of these steps.
\<close>

theorem escrow_balance_invariant:
  assumes "calls_fresh cs canister_init" and "s = run_calls cs canister_init"
  shows "0 \<le> get_escrow_balance m s \<and>
    get_escrow_balance m s = committed_total m s \<and>
    (get_escrow_balance m (snd (settle_batch bid e s)) = get_escrow_balance m s \<or>
     fst (settle_batch bid e s) \<and>
     (\<exists>b. st_get (batches_storage s) bid = Some b \<and> b_status b = ''pending'' \<and>
          b_merchant_id b = m \<and>
          get_escrow_balance m (snd (settle_batch bid e s))
            = max 0 (get_escrow_balance m s - b_total_amount b))) \<and>
    get_escrow_balance m (create_batch_records m' pend e s)
      = get_escrow_balance m s
        + (if m = m' \<and> st_get (escrow_pdas_storage s) m' \<noteq> None
           then sum_list (map bp_amount pend) else 0) \<and>
    get_escrow_balance m (with_escrow_payment pd e s) = get_escrow_balance m s \<and>
    get_escrow_balance m (with_direct_payment pd e s) = get_escrow_balance m s \<and>
    get_escrow_balance m (snd (update_merchant_config m' cd e s)) = get_escrow_balance m s \<and>
    (snd (process_payment pd e s) = with_direct_payment pd e s \<or>
     snd (process_payment pd e s) = with_escrow_payment pd e s \<or>
     snd (process_payment pd e s)
       = snd (create_batch_for_merchant (pd_merchant_id pd) e (with_escrow_payment pd e s))) \<and>
    (snd (create_batch_for_merchant m' e s) = s \<or>
     snd (create_batch_for_merchant m' e s)
       = create_batch_records m' (pending_payments_of m' (batch_payments_storage s)) e s \<or>
     snd (create_batch_for_merchant m' e s)
       = snd (settle_batch (new_batch_id m' e) e
           (create_batch_records m' (pending_payments_of m' (batch_payments_storage s)) e s)))"
proof -
  have l: "ledger_ok s"
    unfolding assms(2) by (rule ledger_ok_run_calls [OF ledger_ok_init assms(1)])
  then have eq: "get_escrow_balance m s = committed_total m s" by (simp add: ledger_ok_iff)
  from l have "0 \<le> committed_total m s"
    by (intro committed_total_nonneg) (auto simp: ledger_ok_iff store_ok_def)
  with eq have nn: "0 \<le> get_escrow_balance m s" by simp
  show ?thesis
    using nn eq balance_settle_batch [of m bid e s] balance_create_batch_records [of m m' pend e s]
      with_escrow_payment_balance [of m pd e s] balance_with_direct_payment [of m pd e s]
      balance_update_merchant_config [of m m' cd e s] process_payment_steps [of pd e s]
      create_batch_for_merchant_steps [of m' e s]
    by blast
qed

theorem escrow_balance_invariant_witness:
  "calls_fresh ex_failed_calls canister_init \<and>
   get_escrow_balance ''m1'' (run_calls ex_failed_calls canister_init) = 10000000000 \<and>
   committed_total ''m1'' (run_calls ex_failed_calls canister_init) = 10000000000"
proof -
  have f: "calls_fresh ex_failed_calls canister_init"
    by (simp add: ex_failed_calls_def ex_pd_def canister_init_def st_keys_def)
  have b: "get_escrow_balance ''m1'' (run_calls ex_failed_calls canister_init) = 10000000000"
    by (simp add: ex_failed_calls_def ex_defs model_defs str_nat.simps get_escrow_balance_def)
  from escrow_balance_invariant [OF f refl, of "''m1''"] f b show ?thesis by simp
qed

text \<open>
  Claim C3. After a successful settlement the batch is \<^verbatim>\<open>"settled"\<close> with its transaction
  reference and gas figures, but \<^verbatim>\<open>settled_at\<close> is not the current time: the final record
  is built from the batch as it was read at the start of the call, so the timestamp
  written into the intermediate \<^verbatim>\<open>"processing"\<close> record is lost, and the escrow PDA's
  \<^verbatim>\<open>last_settlement\<close> is copied from the same stale field. On the pending batch of the
  example, settled at time 5, both fields are still empty afterwards.
\<close>

theorem settle_batch_success_drops_settled_at:
  "fst (settle_batch ''batch_m1_4'' (ex_env 5 0 True) ex_pending_batch) \<and>
   map_option b_status
     (st_get (batches_storage (snd (settle_batch ''batch_m1_4'' (ex_env 5 0 True) ex_pending_batch)))
        ''batch_m1_4'') = Some ''settled'' \<and>
   map_option b_settled_at
     (st_get (batches_storage (snd (settle_batch ''batch_m1_4'' (ex_env 5 0 True) ex_pending_batch)))
        ''batch_m1_4'') = Some None \<and>
   map_option pda_last_settlement
     (st_get (escrow_pdas_storage (snd (settle_batch ''batch_m1_4'' (ex_env 5 0 True) ex_pending_batch)))
        ''m1'') = Some None \<and>
   str_nat (time (ex_env 5 0 True)) = ''5''"
proof -
  have t: "rand_success (ex_env 5 0 True)" by (simp add: ex_env_def)
  have pda: "st_get (escrow_pdas_storage ex_pending_batch) (b_merchant_id ex_batch) = Some (ex_pda 120 1)"
    by (simp add: ex_pending_batch_def ex_batch_def st_get_def)
  show ?thesis
    by (simp add: settle_batch_success [OF ex_pending_batch_get t] pda Let_def st_get_insert)
      (simp add: ex_batch_def ex_pda_def ex_env_def str_nat.simps digit_char_def)
qed

text \<open>
  Claim C4. When \<^const>\<open>settle_batch\<close> runs on a stored pending batch, without pause, and the
  settlement fails, it returns false, the batch is stored as \<^verbatim>\<open>"failed"\<close> with the
  failure message, and the payment storage is untouched: every payment of the batch
  that was \<^verbatim>\<open>"batched"\<close> is still \<^verbatim>\<open>"batched"\<close>.
\<close>

theorem settle_batch_failure_effect:
  assumes "st_get (batches_storage s) bid = Some b" "b_status b = ''pending''"
    "\<not> emergency_paused s" "\<not> rand_success e"
  shows "\<not> fst (settle_batch bid e s) \<and>
    (\<exists>b'. st_get (batches_storage (snd (settle_batch bid e s))) bid = Some b' \<and>
           b_status b' = ''failed'' \<and>
           b_error_message b' = Some ''Settlement transaction failed'') \<and>
    batch_payments_storage (snd (settle_batch bid e s)) = batch_payments_storage s \<and>
    (\<forall>k p. st_get (batch_payments_storage s) k = Some p \<and> bp_batch_id p = Some bid \<and>
            bp_status p = ''batched''
       \<longrightarrow> (\<exists>p'. st_get (batch_payments_storage (snd (settle_batch bid e s))) k = Some p' \<and>
                 bp_batch_id p' = Some bid \<and> bp_status p' = ''batched''))"
  by (simp add: settle_batch_failure [OF assms] st_get_insert)

theorem settle_batch_failure_effect_witness:
  "\<not> fst (settle_batch ''batch_m1_4'' (ex_env 5 0 False) ex_pending_batch) \<and>
   map_option b_status
     (st_get (batches_storage (snd (settle_batch ''batch_m1_4'' (ex_env 5 0 False) ex_pending_batch)))
        ''batch_m1_4'') = Some ''failed'' \<and>
   map_option bp_status
     (st_get (batch_payments_storage
        (snd (settle_batch ''batch_m1_4'' (ex_env 5 0 False) ex_pending_batch))) ''payment_3_12'')
     = Some ''batched''"
proof -
  have f: "\<not> rand_success (ex_env 5 0 False)" by (simp add: ex_env_def)
  have p: "st_get (batch_payments_storage ex_pending_batch) ''payment_3_12''
             = Some (ex_payment ''payment_3_12'' ''3'' ''batched'' (Some ''batch_m1_4''))"
    by (simp add: ex_pending_batch_def st_get_def)
  show ?thesis
    using settle_batch_failure_effect [OF ex_pending_batch_get f] p
    by (auto simp: ex_payment_def)
qed

section \<open>The batch-creation trigger\<close>





section \<open>Batch creation\<close>




section \<open>Payment status transitions\<close>




section \<open>Free-tier payments\<close>

text \<open>
  Claim C8, as stated, fails: a Free-tier call of \<^const>\<open>process_payment\<close> does write to the
  payment storage. On the initial state the payment storage is no longer empty after the
  call; it holds the payment, with status \<^verbatim>\<open>"settled"\<close>.
\<close>

theorem free_tier_payment_is_recorded:
  "detect_api_tier (pd_api_key (ex_pd_free 50)) = free \<and>
   batch_payments_storage (snd (process_payment (ex_pd_free 50) (ex_env 1 7 True) canister_init))
     \<noteq> batch_payments_storage canister_init \<and>
   map_option bp_status
     (st_get (batch_payments_storage
                (snd (process_payment (ex_pd_free 50) (ex_env 1 7 True) canister_init)))
        ''payment_1_7'') = Some ''settled''"
  by (simp add: ex_defs model_defs str_nat.simps)

text \<open>
  Claim C8, amended. A Free-tier call returns the direct-settled result and leaves the
  escrow PDAs, the batches and the settlement configuration unchanged. It stores exactly
  one payment record, under the generated payment id, with status \<^verbatim>\<open>"settled"\<close>, no batch
  id and a direct transaction reference; no record with status \<^verbatim>\<open>"pending"\<close> appears
  that was not there before.
\<close>

theorem free_tier_direct_settlement:
  assumes "detect_api_tier (pd_api_key pd) = free"
  shows "fst (process_payment pd e s) = ''direct_settled_'' @ new_payment_id e \<and>
    escrow_pdas_storage (snd (process_payment pd e s)) = escrow_pdas_storage s \<and>
    batches_storage (snd (process_payment pd e s)) = batches_storage s \<and>
    settle_config_storage (snd (process_payment pd e s)) = settle_config_storage s \<and>
    batch_payments_storage (snd (process_payment pd e s))
      = st_insert (new_payment_id e)
          \<lparr>bp_payment_id = new_payment_id e,
           bp_merchant_id = pd_merchant_id pd,
           bp_user_wallet = pd_user_wallet pd,
           bp_amount = pd_amount pd,
           bp_currency = ''USDC'',
           bp_timestamp = str_nat (time e),
           bp_status = ''settled'',
           bp_batch_id = None,
           bp_transaction_hash = Some (''direct_tx_'' @ str_int (str_hash e (new_payment_id e))),
           bp_error_message = None\<rparr>
          (batch_payments_storage s) \<and>
    (\<forall>k p. st_get (batch_payments_storage (snd (process_payment pd e s))) k = Some p \<and>
           bp_status p = ''pending''
       \<longrightarrow> st_get (batch_payments_storage s) k = Some p)"
  using assms
  by (auto simp: process_payment_def should_use_escrow_def Let_def st_get_insert
      split: option.splits if_splits)

theorem free_tier_direct_settlement_witness:
  "fst (process_payment (ex_pd_free 50) (ex_env 1 7 True) canister_init)
     = ''direct_settled_payment_1_7'' \<and>
   escrow_pdas_storage (snd (process_payment (ex_pd_free 50) (ex_env 1 7 True) canister_init)) = []"
proof -
  have f: "detect_api_tier (pd_api_key (ex_pd_free 50)) = free"
    by (simp add: ex_pd_free_def detect_api_tier_def)
  have n: "new_payment_id (ex_env 1 7 True) = ''payment_1_7''"
    by (simp add: new_payment_id_def ex_env_def str_int_def str_nat.simps digit_char_def)
  show ?thesis
    using free_tier_direct_settlement [OF f, of "ex_env 1 7 True" canister_init] n
    by (simp add: canister_init_def)
qed

text \<open>
  Claim C9. \<^const>\<open>get_batching_metrics\<close> only reads the state, and its average is the
  integer quotient the claim gives (lemma \<open>metrics_values\<close>; zero batches give 0 and 0,
  lemma \<open>metrics_empty\<close>). The success rate is not \<^verbatim>\<open>settled * 10000 div max(1, total)\<close>:
  the source divides in floating point, multiplies by 10000 and truncates. With 57
  settled batches out of 100 the quotient 57/100 rounds to a double just below 0.57,
  the product is just below 5700, and the result is 5699 where the claim gives 5700.
\<close>

theorem success_rate_float_truncation:
  "total_batches_processed (get_batching_metrics ex_metrics_state) = 100 \<and>
   int (length (filter (\<lambda>b. b_status b = ''settled'')
          (st_values (batches_storage ex_metrics_state)))) = 57 \<and>
   settlement_success_rate (get_batching_metrics ex_metrics_state) = 5699 \<and>
   (57 * 10000) div max 1 100 = (5700 :: int)"
  by (simp add: metrics_values [OF ex_metrics_distinct] ex_metrics_counts float_rate_57_100)

section \<open>Configuration updates\<close>

text \<open>
  Claim C10. In every state the canister can reach, \<^const>\<open>update_merchant_config\<close> returns
  false and changes nothing when the merchant has no configuration. When it has one,
  the call returns true; the stored configuration keeps its \<^verbatim>\<open>merchant_id\<close>,
  \<^verbatim>\<open>merchant_address\<close>, \<^verbatim>\<open>api_key\<close>, \<^verbatim>\<open>tier\<close>, \<^verbatim>\<open>batch_day\<close> and \<^verbatim>\<open>created_at\<close>; the
  configurations of other merchants, the payments, the batches, the escrow PDAs and the
  settlement configuration are unchanged.
\<close>

theorem update_merchant_config_frame:
  "(st_get (merchant_configs_storage (run_calls cs canister_init)) m = None
      \<longrightarrow> update_merchant_config m cd e (run_calls cs canister_init)
            = (False, run_calls cs canister_init)) \<and>
   (\<forall>c. st_get (merchant_configs_storage (run_calls cs canister_init)) m = Some c \<longrightarrow>
      fst (update_merchant_config m cd e (run_calls cs canister_init)) \<and>
      (\<exists>c'. st_get (merchant_configs_storage
                     (snd (update_merchant_config m cd e (run_calls cs canister_init)))) m = Some c' \<and>
            mc_merchant_id c' = mc_merchant_id c \<and>
            mc_merchant_address c' = mc_merchant_address c \<and>
            mc_api_key c' = mc_api_key c \<and>
            mc_tier c' = mc_tier c \<and>
            mc_batch_day c' = mc_batch_day c \<and>
            mc_created_at c' = mc_created_at c) \<and>
      (\<forall>m'. m' \<noteq> m \<longrightarrow>
         st_get (merchant_configs_storage
                   (snd (update_merchant_config m cd e (run_calls cs canister_init)))) m'
           = st_get (merchant_configs_storage (run_calls cs canister_init)) m') \<and>
      batch_payments_storage (snd (update_merchant_config m cd e (run_calls cs canister_init)))
        = batch_payments_storage (run_calls cs canister_init) \<and>
      batches_storage (snd (update_merchant_config m cd e (run_calls cs canister_init)))
        = batches_storage (run_calls cs canister_init) \<and>
      escrow_pdas_storage (snd (update_merchant_config m cd e (run_calls cs canister_init)))
        = escrow_pdas_storage (run_calls cs canister_init) \<and>
      settle_config_storage (snd (update_merchant_config m cd e (run_calls cs canister_init)))
        = settle_config_storage (run_calls cs canister_init))"
proof -
  let ?s = "run_calls cs canister_init"
  have ok: "store_ok ?s" by (simp add: store_ok_run_calls store_ok_init)
  have key: "mc_merchant_id c = m" if "st_get (merchant_configs_storage ?s) m = Some c" for c
    using ok that list_all_in_get [of config_ok "merchant_configs_storage ?s" m c]
    by (simp add: store_ok_def config_ok_def)
  show ?thesis
    by (auto simp: update_merchant_config_def Let_def st_get_insert key)
qed

theorem update_merchant_config_frame_witness:
  "update_merchant_config ''m9'' ex_cd (ex_env 9 0 True) (run_calls ex_calls canister_init)
     = (False, run_calls ex_calls canister_init) \<and>
   fst (update_merchant_config ''m1'' ex_cd (ex_env 9 0 True) (run_calls ex_calls canister_init)) \<and>
   batches_storage (snd (update_merchant_config ''m1'' ex_cd (ex_env 9 0 True)
       (run_calls ex_calls canister_init))) = [(''batch_m1_4'', ex_batch)]"
proof -
  have a: "st_get (merchant_configs_storage (run_calls ex_calls canister_init)) ''m9'' = None"
    by (simp add: ex_pending_batch_run ex_pending_batch_def st_get_def)
  have b: "st_get (merchant_configs_storage (run_calls ex_calls canister_init)) ''m1'' = Some ex_config"
    by (simp add: ex_pending_batch_run ex_pending_batch_def st_get_def)
  have c: "batches_storage (run_calls ex_calls canister_init) = [(''batch_m1_4'', ex_batch)]"
    by (simp add: ex_pending_batch_run ex_pending_batch_def)
  show ?thesis
    using update_merchant_config_frame [of ex_calls "''m9''" ex_cd "ex_env 9 0 True"]
      update_merchant_config_frame [of ex_calls "''m1''" ex_cd "ex_env 9 0 True"] a b c
    by simp
qed

end
